theory Spec2Isabelle
  imports Main
begin

section \<open>mod\_vlimit: shared counter tables and the admission decision\<close>

text \<open>
  A shallow embedding of \<^verbatim>\<open>mod_vlimit.c\<close>. Each C function is a HOL function of the same
  name. The shared-memory tables, the global mutex and the diagnostic sinks are fields of an
  explicit \<open>world\<close> that is passed in and returned; what the operating system answers
  (flag files, the outcome of locking, the file system consulted by the path check) is an
  \<open>env\<close> that the functions only read. C strings are HOL strings (the bytes before the
  terminating NUL), so \<^verbatim>\<open>strcmp(a, b) == 0\<close> is \<open>a = b\<close> and \<^verbatim>\<open>s[0] == '\0'\<close> is \<open>s = []\<close>.
  Behaviour that C leaves undefined (a write past a \<^verbatim>\<open>char\<close> array, an array index of -1)
  is an error value, so no theorem below says anything about what such a run computes.
  Counters are C \<^verbatim>\<open>int\<close>s and are modelled as unbounded integers: they move by one per
  open request and no statement below is about \<^verbatim>\<open>INT_MAX\<close>.
\<close>

subsection \<open>Constants\<close>

definition IP_MAX :: nat where "IP_MAX = 15"
definition MAX_FILENAME :: nat where "MAX_FILENAME = 256"
definition MAX_CLIENTS :: nat where "MAX_CLIENTS = 512"
definition MAXSYMLINKS :: nat where "MAXSYMLINKS = 256"

text \<open>Values of the host's headers (\<^verbatim>\<open>httpd.h\<close>, \<^verbatim>\<open>apr_errno.h\<close>, \<^verbatim>\<open>limits.h\<close>).\<close>

definition OK :: int where "OK = 0"
definition DECLINED :: int where "DECLINED = - 1"
definition HTTP_SERVICE_UNAVAILABLE :: int where "HTTP_SERVICE_UNAVAILABLE = 503"
definition APR_SUCCESS :: int where "APR_SUCCESS = 0"
definition PATH_MAX :: nat where "PATH_MAX = 4096"

datatype error = OutOfBounds | BufferOverrun

subsection \<open>Data model\<close>

record vlimit_config =
  type :: int
  ip_limit :: int
  file_limit :: int
  conf_id :: int
  full_path :: "string option"

record ip_stat =
  address :: string
  counter :: int

record file_stat =
  filename :: string
  counter :: int

record SHM_DATA =
  file_stat_shm :: "file_stat list"
  ip_stat_shm :: "ip_stat list"

text \<open>
  The fields of \<^verbatim>\<open>request_rec\<close> that the module reads: \<^verbatim>\<open>r->filename\<close>,
  \<^verbatim>\<open>r->connection->remote_ip\<close>, the \<^verbatim>\<open>HOST\<close> entry of \<^verbatim>\<open>r->headers_in\<close> (\<open>None\<close> when
  \<^verbatim>\<open>apr_table_get\<close> returns \<^verbatim>\<open>NULL\<close>), \<^verbatim>\<open>r->server->server_hostname\<close>, \<^verbatim>\<open>r->server->names\<close>
  (\<open>None\<close> for a \<^verbatim>\<open>NULL\<close> array), and whether \<^verbatim>\<open>r->main\<close> and \<^verbatim>\<open>r->prev\<close> are set.
\<close>

record request_rec =
  filename :: string
  remote_ip :: string
  host_header :: "string option"
  server_hostname :: string
  server_names :: "string list option"
  has_main :: bool
  has_prev :: bool

text \<open>The arrays of \<^verbatim>\<open>SHM_DATA\<close> have \<^verbatim>\<open>MAX_CLIENTS\<close> entries each.\<close>

definition wf_shm :: "SHM_DATA \<Rightarrow> bool" where
  "wf_shm d \<longleftrightarrow>
     length (file_stat_shm d) = MAX_CLIENTS \<and> length (ip_stat_shm d) = MAX_CLIENTS"

subsection \<open>Library functions used by the module\<close>

text \<open>
  \<^verbatim>\<open>basename\<close> of \<^verbatim>\<open>libgen.h\<close>: \<^verbatim>\<open>"."\<close> for the empty string, \<^verbatim>\<open>"/"\<close> for a string of
  slashes, otherwise the last component with trailing slashes dropped. The C function may
  cut the trailing slashes off its argument in place; the name of the shortened path is the
  same (lemma \<open>basename_stripped\<close>), so \<^verbatim>\<open>r->filename\<close> is not threaded through the world.
\<close>

definition basename :: "string \<Rightarrow> string" where
  "basename path =
     (if path = [] then ''.''
      else let stripped = rev (dropWhile (\<lambda>c. c = CHR ''/'') (rev path))
           in if stripped = [] then ''/''
              else rev (takeWhile (\<lambda>c. c \<noteq> CHR ''/'') (rev stripped)))"

text \<open>
  \<^verbatim>\<open>strcpy(dest, src)\<close> into a \<^verbatim>\<open>char dest[dest_size]\<close>: it copies \<^verbatim>\<open>strlen(src) + 1\<close> bytes
  and knows no bound, so a source that does not fit is written past the array.
\<close>

definition strcpy :: "nat \<Rightarrow> string \<Rightarrow> error + string" where
  "strcpy dest_size src =
     (if length src + 1 \<le> dest_size then Inr src else Inl BufferOverrun)"

text \<open>
  \<^verbatim>\<open>ap_is_initial_req\<close>: the request is neither a sub-request nor an internal redirect.
\<close>

definition ap_is_initial_req :: "request_rec \<Rightarrow> bool" where
  "ap_is_initial_req r \<longleftrightarrow> \<not> has_main r \<and> \<not> has_prev r"

subsection \<open>Slot tables\<close>

text \<open>
  The four lookups are the same loop,
  \<^verbatim>\<open>for (i = 0; i < MAX_CLIENTS; i++) if (<test on slot i>) return i; return -1;\<close>
\<close>

function slot_scan :: "('a \<Rightarrow> bool) \<Rightarrow> 'a list \<Rightarrow> nat \<Rightarrow> int" where
  "slot_scan hit tbl i =
     (if i < MAX_CLIENTS
      then (if hit (tbl ! i) then int i else slot_scan hit tbl (i + 1))
      else - 1)"
  by pat_completeness auto
termination
  by (relation "measure (\<lambda>(hit, tbl, i). MAX_CLIENTS - i)") auto

declare slot_scan.simps [simp del]

definition get_file_slot_id :: "SHM_DATA \<Rightarrow> request_rec \<Rightarrow> int" where
  "get_file_slot_id limit_stat r =
     slot_scan (\<lambda>s. file_stat.filename s = basename (request_rec.filename r))
       (file_stat_shm limit_stat) 0"

definition get_file_empty_slot_id :: "SHM_DATA \<Rightarrow> request_rec \<Rightarrow> int" where
  "get_file_empty_slot_id limit_stat r =
     slot_scan (\<lambda>s. file_stat.filename s = []) (file_stat_shm limit_stat) 0"

definition get_file_counter :: "SHM_DATA \<Rightarrow> request_rec \<Rightarrow> int" where
  "get_file_counter limit_stat r =
     (let id0 = get_file_slot_id limit_stat r;
          id = (if id0 = - 1 then get_file_empty_slot_id limit_stat r else id0)
      in if id \<ge> 0 then file_stat.counter (file_stat_shm limit_stat ! nat id) else - 1)"

text \<open>
  In \<^verbatim>\<open>inc_file_counter\<close> and \<^verbatim>\<open>dec_file_counter\<close> the counter is changed inside
  \<^verbatim>\<open>while (1) { old = c; new = old + 1; if (c == old) { c = new; break; } }\<close>. The test
  re-reads what was read one statement earlier, so the body runs once.
\<close>

definition inc_file_counter :: "SHM_DATA \<Rightarrow> request_rec \<Rightarrow> error + (int \<times> SHM_DATA)" where
  "inc_file_counter limit_stat r =
     (let tbl = file_stat_shm limit_stat;
          id0 = get_file_slot_id limit_stat r;
          id = (if id0 = - 1 then get_file_empty_slot_id limit_stat r else id0)
      in case (if id0 = - 1 \<and> id \<noteq> - 1
               then (case strcpy MAX_FILENAME (basename (request_rec.filename r)) of
                       Inl e \<Rightarrow> Inl e
                     | Inr name \<Rightarrow>
                         Inr (tbl[nat id := (tbl ! nat id)\<lparr>file_stat.filename := name\<rparr>]))
               else Inr tbl) of
           Inl e \<Rightarrow> Inl e
         | Inr tbl' \<Rightarrow>
             if id \<ge> 0 then
               let old = file_stat.counter (tbl' ! nat id);
                   new = old + 1
               in Inr (0, limit_stat\<lparr>file_stat_shm :=
                            tbl'[nat id := (tbl' ! nat id)\<lparr>file_stat.counter := new\<rparr>]\<rparr>)
             else Inr (- 1, limit_stat\<lparr>file_stat_shm := tbl'\<rparr>))"


definition unset_file_counter :: "SHM_DATA \<Rightarrow> request_rec \<Rightarrow> error + SHM_DATA" where
  "unset_file_counter limit_stat r =
     (let tbl = file_stat_shm limit_stat;
          id = get_file_slot_id limit_stat r
      in if id < 0 then Inl OutOfBounds
         else if file_stat.counter (tbl ! nat id) = 0
         then Inr (limit_stat\<lparr>file_stat_shm :=
                     tbl[nat id := (tbl ! nat id)\<lparr>file_stat.filename := []\<rparr>]\<rparr>)
         else Inr limit_stat)"

definition get_ip_slot_id :: "SHM_DATA \<Rightarrow> request_rec \<Rightarrow> int" where
  "get_ip_slot_id limit_stat r =
     slot_scan (\<lambda>s. ip_stat.address s = remote_ip r) (ip_stat_shm limit_stat) 0"

definition get_ip_empty_slot_id :: "SHM_DATA \<Rightarrow> request_rec \<Rightarrow> int" where
  "get_ip_empty_slot_id limit_stat r =
     slot_scan (\<lambda>s. ip_stat.address s = []) (ip_stat_shm limit_stat) 0"

definition get_ip_counter :: "SHM_DATA \<Rightarrow> request_rec \<Rightarrow> int" where
  "get_ip_counter limit_stat r =
     (let id0 = get_ip_slot_id limit_stat r;
          id = (if id0 = - 1 then get_ip_empty_slot_id limit_stat r else id0)
      in if id \<ge> 0 then ip_stat.counter (ip_stat_shm limit_stat ! nat id) else - 1)"

definition inc_ip_counter :: "SHM_DATA \<Rightarrow> request_rec \<Rightarrow> error + (int \<times> SHM_DATA)" where
  "inc_ip_counter limit_stat r =
     (let tbl = ip_stat_shm limit_stat;
          id0 = get_ip_slot_id limit_stat r;
          id = (if id0 = - 1 then get_ip_empty_slot_id limit_stat r else id0)
      in case (if id0 = - 1 \<and> id \<noteq> - 1
               then (case strcpy IP_MAX (remote_ip r) of
                       Inl e \<Rightarrow> Inl e
                     | Inr name \<Rightarrow>
                         Inr (tbl[nat id := (tbl ! nat id)\<lparr>ip_stat.address := name\<rparr>]))
               else Inr tbl) of
           Inl e \<Rightarrow> Inl e
         | Inr tbl' \<Rightarrow>
             if id \<ge> 0 then
               Inr (0, limit_stat\<lparr>ip_stat_shm :=
                         tbl'[nat id := (tbl' ! nat id)\<lparr>ip_stat.counter :=
                                           ip_stat.counter (tbl' ! nat id) + 1\<rparr>]\<rparr>)
             else Inr (- 1, limit_stat\<lparr>ip_stat_shm := tbl'\<rparr>))"

definition unset_ip_counter :: "SHM_DATA \<Rightarrow> request_rec \<Rightarrow> error + SHM_DATA" where
  "unset_ip_counter limit_stat r =
     (let tbl = ip_stat_shm limit_stat;
          id = get_ip_slot_id limit_stat r
      in if id < 0 then Inl OutOfBounds
         else if ip_stat.counter (tbl ! nat id) = 0
         then Inr (limit_stat\<lparr>ip_stat_shm :=
                     tbl[nat id := (tbl ! nat id)\<lparr>ip_stat.address := []\<rparr>]\<rparr>)
         else Inr limit_stat)"

subsection \<open>Environment, world and diagnostics\<close>

datatype readlink_result = Link string | Not_A_Link | Readlink_Failed

text \<open>
  What the operating system answers during one hook call: whether each flag file exists
  (\<^verbatim>\<open>access(..., F_OK) == 0\<close>), whether the snapshot file can be opened, the status returned
  by \<^verbatim>\<open>apr_global_mutex_lock\<close> and \<^verbatim>\<open>apr_global_mutex_unlock\<close>, and, for the path check,
  \<^verbatim>\<open>access\<close>, \<^verbatim>\<open>readlink\<close> (\<open>Not_A_Link\<close> is \<^verbatim>\<open>EINVAL\<close>) and \<^verbatim>\<open>getcwd\<close>.
\<close>

record env =
  debug_flag :: bool
  log_flag :: bool
  ip_stat_flag :: bool
  file_stat_flag :: bool
  stat_open_ok :: bool
  lock_status :: int
  unlock_status :: int
  file_exists :: "string \<Rightarrow> bool"
  readlink :: "string \<Rightarrow> readlink_result"
  getcwd :: "string option"

text \<open>
  \<open>limit_stat\<close> is the table pair at \<^verbatim>\<open>shm_base + cfg->conf_id\<close>; \<open>mutex_held\<close> says whether
  this process holds \<^verbatim>\<open>vlimit_mutex\<close>. The other fields are the diagnostic sinks: the lines
  sent to syslog, the records appended to the transaction log (message, IP count and limit,
  file count and limit), and the two snapshot files (\<open>None\<close> while the file does not exist).
  A message built with \<^verbatim>\<open>apr_psprintf\<close> is recorded by its format text; the values
  interpolated into it, and the time, pid and names of a transaction record, are left out.
\<close>

record world =
  limit_stat :: SHM_DATA
  mutex_held :: bool
  syslog :: "string list"
  vlimit_log :: "(string \<times> int \<times> int \<times> int \<times> int) list"
  ip_stat_list :: "(nat \<times> string \<times> int) list option"
  file_stat_list :: "(nat \<times> string \<times> int) list option"

definition VLIMIT_DEBUG_SYSLOG :: "env \<Rightarrow> string \<Rightarrow> string \<Rightarrow> world \<Rightarrow> int \<times> world" where
  "VLIMIT_DEBUG_SYSLOG e key msg w =
     (if debug_flag e
      then (0, w\<lparr>syslog := syslog w @ [''mod_vlimit: '' @ key @ msg]\<rparr>)
      else (- 1, w))"

text \<open>No caller uses the value returned by \<^verbatim>\<open>VLIMIT_DEBUG_SYSLOG\<close>.\<close>

definition dbg :: "env \<Rightarrow> string \<Rightarrow> string \<Rightarrow> world \<Rightarrow> world" where
  "dbg e key msg w = snd (VLIMIT_DEBUG_SYSLOG e key msg w)"

definition dec_file_counter :: "env \<Rightarrow> request_rec \<Rightarrow> world \<Rightarrow> int \<times> world" where
  "dec_file_counter e r w =
     (let ls = limit_stat w;
          tbl = file_stat_shm ls;
          id = get_file_slot_id ls r
      in if id \<ge> 0 then
           let old = file_stat.counter (tbl ! nat id);
               new = old - 1
           in (0, w\<lparr>limit_stat := ls\<lparr>file_stat_shm :=
                       tbl[nat id := (tbl ! nat id)\<lparr>file_stat.counter := new\<rparr>]\<rparr>\<rparr>)
         else (- 1, dbg e ''dec_file_counter: '' ''unexpected error. file slot not found.'' w))"

definition dec_ip_counter :: "env \<Rightarrow> request_rec \<Rightarrow> world \<Rightarrow> int \<times> world" where
  "dec_ip_counter e r w =
     (let ls = limit_stat w;
          tbl = ip_stat_shm ls;
          id = get_ip_slot_id ls r
      in if id \<ge> 0 then
           (0, w\<lparr>limit_stat := ls\<lparr>ip_stat_shm :=
                   tbl[nat id := (tbl ! nat id)\<lparr>ip_stat.counter :=
                                    ip_stat.counter (tbl ! nat id) - 1\<rparr>]\<rparr>\<rparr>)
         else (- 1, dbg e ''dec_ip_counter: '' ''unexpected error. ip slot not found.'' w))"

text \<open>
  The snapshot routines write one line per slot with a positive counter, once, while the
  flag file exists and the snapshot file does not. They return 0 when they ran (also when
  opening or closing the file failed, as \<^verbatim>\<open>OK\<close> is 0) and -1 otherwise.
\<close>

definition make_ip_slot_list :: "env \<Rightarrow> world \<Rightarrow> int \<times> world" where
  "make_ip_slot_list e w =
     (if ip_stat_flag e \<and> ip_stat_list w = None then
        if \<not> stat_open_ok e then (OK, w)
        else (0, w\<lparr>ip_stat_list := Some
                [(i, ip_stat.address s, ip_stat.counter s).
                   (i, s) \<leftarrow> zip [0..<MAX_CLIENTS] (ip_stat_shm (limit_stat w)),
                   ip_stat.counter s > 0]\<rparr>)
      else (- 1, w))"

definition make_file_slot_list :: "env \<Rightarrow> world \<Rightarrow> int \<times> world" where
  "make_file_slot_list e w =
     (if file_stat_flag e \<and> file_stat_list w = None then
        if \<not> stat_open_ok e then (OK, w)
        else (0, w\<lparr>file_stat_list := Some
                [(i, file_stat.filename s, file_stat.counter s).
                   (i, s) \<leftarrow> zip [0..<MAX_CLIENTS] (file_stat_shm (limit_stat w)),
                   file_stat.counter s > 0]\<rparr>)
      else (- 1, w))"

definition vlimit_logging ::
  "env \<Rightarrow> string \<Rightarrow> request_rec \<Rightarrow> vlimit_config \<Rightarrow> world \<Rightarrow> int \<times> world" where
  "vlimit_logging e msg r cfg w =
     (if log_flag e
      then (0, w\<lparr>vlimit_log := vlimit_log w @
                  [(msg, get_ip_counter (limit_stat w) r, ip_limit cfg,
                    get_file_counter (limit_stat w) r, file_limit cfg)]\<rparr>)
      else (- 1, w))"

subsection \<open>Virtual host check\<close>

text \<open>
  \<^verbatim>\<open>strtok(s, delim)\<close> called with a string: it skips leading delimiters, returns \<^verbatim>\<open>NULL\<close>
  if nothing is left, and otherwise returns the token that ends before the next delimiter.
  It ends the token by writing a NUL over that delimiter; a second \<^verbatim>\<open>strtok\<close> on the same
  buffer therefore sees the leading delimiters and the token, and returns the same token
  (lemma \<open>strtok_again\<close>), which is why the header is not threaded through the world.
\<close>

definition strtok :: "string \<Rightarrow> string \<Rightarrow> string option" where
  "strtok s delim =
     (let t = dropWhile (\<lambda>c. c \<in> set delim) s
      in if t = [] then None else Some (takeWhile (\<lambda>c. c \<notin> set delim) t))"

definition strtok_buffer :: "string \<Rightarrow> string \<Rightarrow> string" where
  "strtok_buffer s delim =
     takeWhile (\<lambda>c. c \<in> set delim) s @
     takeWhile (\<lambda>c. c \<notin> set delim) (dropWhile (\<lambda>c. c \<in> set delim) s)"

text \<open>
  The first lines of \<^verbatim>\<open>check_virtualhost_name\<close> (and, again, of \<^verbatim>\<open>vlimit_check_limit\<close>):
  the header or \<^verbatim>\<open>"NoHostHeader"\<close>, then its first token, or the header itself when
  \<^verbatim>\<open>strtok\<close> returns \<^verbatim>\<open>NULL\<close>.
\<close>

definition access_host :: "request_rec \<Rightarrow> string" where
  "access_host r =
     (let header_name = (case host_header r of None \<Rightarrow> ''NoHostHeader'' | Some h \<Rightarrow> h)
      in case strtok header_name '':'' of None \<Rightarrow> header_name | Some t \<Rightarrow> t)"

fun alias_loop :: "env \<Rightarrow> string \<Rightarrow> string list \<Rightarrow> world \<Rightarrow> bool \<times> world" where
  "alias_loop e host [] w = (False, w)"
| "alias_loop e host (alias_name # rest) w =
     (let w1 = dbg e ''check_virtualhost_name: ''
                 ''INFO: access_name=(%s) ServerAlias=(%s)'' w
      in if host = alias_name
         then (True, dbg e ''check_virtualhost_name: ''
                       ''Match: access_name=(%s) ServerAlias=(%s)'' w1)
         else alias_loop e host rest w1)"

definition check_virtualhost_name :: "env \<Rightarrow> request_rec \<Rightarrow> world \<Rightarrow> int \<times> world" where
  "check_virtualhost_name e r w =
     (if access_host r = server_hostname r
      then (0, dbg e ''check_virtualhost_name: ''
                 ''Match: access_name=(%s) ServerName=(%s)'' w)
      else case (case server_names r of
                   None \<Rightarrow> (False, w)
                 | Some names \<Rightarrow> alias_loop e (access_host r) names w) of
             (True, w1) \<Rightarrow> (0, w1)
           | (False, w1) \<Rightarrow>
               (1, dbg e ''check_virtualhost_name: '' ''Not Match: access_name=(%s)'' w1))"


subsection \<open>Admission: \<^verbatim>\<open>vlimit_check_limit\<close>\<close>

text \<open>
  The body of \<^verbatim>\<open>vlimit_check_limit\<close> in the order of the source, cut into its stages: the
  comparison with the limits (after the unlock), the unlock, the IP counter, the file
  counter and the lock, and the checks before the lock. \<open>ip_count\<close>, \<open>file_count\<close> and
  \<open>counter_stat\<close> are the local variables of the C function.
\<close>

definition check_limit_decide ::
  "env \<Rightarrow> request_rec \<Rightarrow> vlimit_config \<Rightarrow> int \<Rightarrow> int \<Rightarrow> int \<Rightarrow> world \<Rightarrow> int \<times> world" where
  "check_limit_decide e r cfg ip_count file_count counter_stat w =
     (let w1 = dbg e ''vlimit_check_limit: ''
                 ''conf_id: %d name: %s  uri: %s  ip_count: %d/%d file_count: %d/%d'' w
      in if ip_limit cfg > 0 \<and> ip_count > ip_limit cfg then
           let w2 = dbg e ''vlimit_check_limit: ''
                      (''Rejected, too many connections from this host(%s) to the file(%s) by '' @
                       ''VlimitIP[ip_limit=(%d) docroot=(%s)].'') w1;
               w3 = (if counter_stat \<noteq> - 2
                     then snd (vlimit_logging e ''RESULT: 503 INC'' r cfg w2) else w2)
           in (HTTP_SERVICE_UNAVAILABLE, w3)
         else if file_limit cfg > 0 \<and> file_count > file_limit cfg then
           let w2 = dbg e ''vlimit_check_limit: ''
                      (''Rejected, too many connections to the file(%s) by '' @
                       ''VlimitFile[limit=(%d) docroot=(%s)].'') w1;
               w3 = (if counter_stat \<noteq> - 2
                     then snd (vlimit_logging e ''RESULT: 503 INC'' r cfg w2) else w2)
           in (HTTP_SERVICE_UNAVAILABLE, w3)
         else
           let w2 = dbg e ''vlimit_check_limit: '' ''OK: Passed all checks'' w1;
               w3 = (if counter_stat \<noteq> - 2
                     then snd (vlimit_logging e ''RESULT:  OK INC'' r cfg w2) else w2)
           in (OK, w3))"

definition check_limit_unlock ::
  "env \<Rightarrow> request_rec \<Rightarrow> vlimit_config \<Rightarrow> int \<Rightarrow> int \<Rightarrow> int \<Rightarrow> world \<Rightarrow> int \<times> world" where
  "check_limit_unlock e r cfg ip_count file_count counter_stat w =
     (let w1 = dbg e ''vlimit_check_limit: '' ''vlimit_mutex unlocked.'' w
      in if unlock_status e \<noteq> APR_SUCCESS
         then (OK, dbg e ''vlimit_check_limit: '' ''vlimit_mutex unlock failed.'' w1)
         else check_limit_decide e r cfg ip_count file_count counter_stat
                (w1\<lparr>mutex_held := False\<rparr>))"

definition check_limit_ip ::
  "env \<Rightarrow> request_rec \<Rightarrow> vlimit_config \<Rightarrow> int \<Rightarrow> int \<Rightarrow> world \<Rightarrow> error + (int \<times> world)" where
  "check_limit_ip e r cfg file_count counter_stat w =
     (if ip_limit cfg > 0 then
        let w1 = dbg e ''vlimit_check_limit: '' ''type IP: ip_count++'' w
        in case inc_ip_counter (limit_stat w1) r of
             Inl err \<Rightarrow> Inl err
           | Inr (stat, ls) \<Rightarrow>
               let w2 = w1\<lparr>limit_stat := ls\<rparr>
               in if stat = - 1
                  then Inr (HTTP_SERVICE_UNAVAILABLE,
                            dbg e ''vlimit_check_limit: '' ''ip counter slot full. maxclients?'' w2)
                  else Inr (check_limit_unlock e r cfg (get_ip_counter ls r) file_count stat w2)
      else Inr (check_limit_unlock e r cfg 0 file_count counter_stat w))"

definition check_limit_file ::
  "env \<Rightarrow> request_rec \<Rightarrow> vlimit_config \<Rightarrow> world \<Rightarrow> error + (int \<times> world)" where
  "check_limit_file e r cfg w =
     (if file_limit cfg > 0 then
        let w1 = dbg e ''vlimit_check_limit: '' ''type File: file_count++'' w
        in case inc_file_counter (limit_stat w1) r of
             Inl err \<Rightarrow> Inl err
           | Inr (stat, ls) \<Rightarrow>
               let w2 = w1\<lparr>limit_stat := ls\<rparr>
               in if stat = - 1
                  then Inr (HTTP_SERVICE_UNAVAILABLE,
                            dbg e ''vlimit_check_limit: '' ''file counter slot full. maxclients?'' w2)
                  else check_limit_ip e r cfg (get_file_counter ls r) stat w2
      else check_limit_ip e r cfg 0 0 w)"

definition check_limit_lock ::
  "env \<Rightarrow> request_rec \<Rightarrow> vlimit_config \<Rightarrow> world \<Rightarrow> error + (int \<times> world)" where
  "check_limit_lock e r cfg w =
     (let w1 = dbg e ''vlimit_check_limit: '' ''vlimit_mutex locked.'' w
      in if lock_status e \<noteq> APR_SUCCESS
         then Inr (OK, dbg e ''vlimit_check_limit: '' ''vlimit_mutex lock failed.'' w1)
         else check_limit_file e r cfg (w1\<lparr>mutex_held := True\<rparr>))"

definition vlimit_check_limit ::
  "env \<Rightarrow> request_rec \<Rightarrow> vlimit_config \<Rightarrow> world \<Rightarrow> error + (int \<times> world)" where
  "vlimit_check_limit e r cfg w =
     (if \<not> ap_is_initial_req r then
        Inr (DECLINED, dbg e ''vlimit_check_limit: '' ''SKIPPED: Initial Reqeusts.'' w)
      else if ip_limit cfg \<le> 0 \<and> file_limit cfg \<le> 0 then
        Inr (DECLINED, dbg e ''vlimit_check_limit: ''
                         ''SKIPPED: cfg->ip_limit <= 0 && cfg->file_limit <= 0'' w)
      else
        let w1 = dbg e ''vlimit_check_limit: ''
                   ''client info: address=(%s) access_host=(%s)'' w;
            (rc_ip, w2) = make_ip_slot_list e w1;
            w3 = (if rc_ip \<noteq> - 1
                  then dbg e ''vlimit_check_limit: ''
                         ''make_ip_slot_list exec. create list(/tmp/vlimit_ip_stat.list).'' w2
                  else w2);
            (rc_file, w4) = make_file_slot_list e w3;
            w5 = (if rc_file \<noteq> - 1
                  then dbg e ''vlimit_check_limit: ''
                         ''make_file_slot_list exec. create list(/tmp/vlimit_file_stat.list).'' w4
                  else w4);
            (vhost, w6) = check_virtualhost_name e r w5
        in if vhost \<noteq> 0
           then Inr (OK, dbg e ''vlimit_check_limit: ''
                           ''access_host != server_hostname. return OK.'' w6)
           else check_limit_lock e r cfg w6)"

subsection \<open>Completion: \<^verbatim>\<open>vlimit_response_end\<close>\<close>

definition response_end_file ::
  "env \<Rightarrow> request_rec \<Rightarrow> vlimit_config \<Rightarrow> int \<Rightarrow> world \<Rightarrow> error + (int \<times> world)" where
  "response_end_file e r cfg counter_stat w =
     (if file_limit cfg > 0 then
        let w1 = dbg e ''vlimit_response_end: '' ''type FILE: file_count--'' w;
            (stat, w2) = (if get_file_counter (limit_stat w1) r > 0
                          then dec_file_counter e r w1 else (counter_stat, w1))
        in if get_file_counter (limit_stat w2) r = 0
           then (case unset_file_counter (limit_stat w2) r of
                   Inl err \<Rightarrow> Inl err
                 | Inr ls \<Rightarrow> Inr (stat, w2\<lparr>limit_stat := ls\<rparr>))
           else Inr (stat, w2)
      else Inr (counter_stat, w))"

definition response_end_ip ::
  "env \<Rightarrow> request_rec \<Rightarrow> vlimit_config \<Rightarrow> int \<Rightarrow> world \<Rightarrow> error + (int \<times> world)" where
  "response_end_ip e r cfg counter_stat w =
     (if ip_limit cfg > 0 then
        let w1 = dbg e ''vlimit_response_end: '' ''type IP: ip_count--'' w;
            (stat, w2) = (if get_ip_counter (limit_stat w1) r > 0
                          then dec_ip_counter e r w1 else (counter_stat, w1))
        in if get_ip_counter (limit_stat w2) r = 0
           then (case unset_ip_counter (limit_stat w2) r of
                   Inl err \<Rightarrow> Inl err
                 | Inr ls \<Rightarrow> Inr (stat, w2\<lparr>limit_stat := ls\<rparr>))
           else Inr (stat, w2)
      else Inr (counter_stat, w))"

definition response_end_unlock ::
  "env \<Rightarrow> request_rec \<Rightarrow> vlimit_config \<Rightarrow> int \<Rightarrow> world \<Rightarrow> int \<times> world" where
  "response_end_unlock e r cfg counter_stat w =
     (let w1 = (if counter_stat \<noteq> - 2
                then snd (vlimit_logging e ''RESULT: END DEC'' r cfg w) else w);
          w2 = dbg e ''vlimit_response_end: '' ''vlimit_mutex unlocked.'' w1
      in if unlock_status e \<noteq> APR_SUCCESS
         then (OK, dbg e ''vlimit_response_end: '' ''vlimit_mutex unlock failed.'' w2)
         else (OK, dbg e ''vlimit_response_end: '' ''end''
                     (dbg e ''vlimit_response_end: ''
                        ''conf_id: %d name: %s  uri: %s ip_count: %d/%d file_count: %d/%d''
                        (w2\<lparr>mutex_held := False\<rparr>))))"

definition vlimit_response_end ::
  "env \<Rightarrow> request_rec \<Rightarrow> vlimit_config \<Rightarrow> world \<Rightarrow> error + (int \<times> world)" where
  "vlimit_response_end e r cfg w =
     (let w0 = dbg e ''vlimit_response_end: '' ''start'' w;
          (vhost, w1) = check_virtualhost_name e r w0
      in if vhost \<noteq> 0
         then Inr (OK, dbg e ''vlimit_response_end: '' ''end''
                         (dbg e ''vlimit_response_end''
                            '': access_host != server_hostname. return OK.'' w1))
         else
           let w2 = dbg e ''vlimit_response_end: '' ''vlimit_mutex locked.'' w1
           in if lock_status e \<noteq> APR_SUCCESS
              then Inr (OK, dbg e ''vlimit_response_end: '' ''vlimit_mutex lock failed.'' w2)
              else case response_end_file e r cfg (- 2) (w2\<lparr>mutex_held := True\<rparr>) of
                     Inl err \<Rightarrow> Inl err
                   | Inr (stat1, w3) \<Rightarrow>
                       (case response_end_ip e r cfg stat1 w3 of
                          Inl err \<Rightarrow> Inl err
                        | Inr (stat2, w4) \<Rightarrow> Inr (response_end_unlock e r cfg stat2 w4)))"


subsection \<open>Path scope: \<^verbatim>\<open>realpath_for_vlimit\<close> and \<^verbatim>\<open>vlimit_handler\<close>\<close>

text \<open>
  \<open>npath\<close> is the part of \<^verbatim>\<open>resolved_path\<close> written so far (the bytes before the pointer
  \<^verbatim>\<open>npath\<close>), \<open>path\<close> the rest of the input. \<open>copy_component\<close> is the inner loop that copies
  one component and stops with \<^verbatim>\<open>ENAMETOOLONG\<close>; \<open>dotdot_back\<close> is
  \<^verbatim>\<open>while (npath > resolved_path + 1 && (--npath)[-1] != '/');\<close> and \<open>link_back\<close> is
  \<^verbatim>\<open>while (*(--npath) != '/');\<close>, which leaves the buffer when it holds no slash.
\<close>

fun copy_component :: "string \<Rightarrow> string \<Rightarrow> int \<Rightarrow> (string \<times> string) option" where
  "copy_component [] npath maxreslth = Some ([], npath)"
| "copy_component (c # path) npath maxreslth =
     (if c = CHR ''/'' then Some (c # path, npath)
      else if int (length npath) > maxreslth - 2 then None
      else copy_component path (npath @ [c]) maxreslth)"

function dotdot_back :: "string \<Rightarrow> string" where
  "dotdot_back npath =
     (if length npath > 1
      then (if last (butlast npath) \<noteq> CHR ''/''
            then dotdot_back (butlast npath) else butlast npath)
      else npath)"
  by pat_completeness auto
termination
  by (relation "measure length") auto

declare dotdot_back.simps [simp del]

function link_back :: "string \<Rightarrow> error + string" where
  "link_back npath =
     (if npath = [] then Inl OutOfBounds
      else if last npath \<noteq> CHR ''/'' then link_back (butlast npath)
      else Inr (butlast npath))"
  by pat_completeness auto
termination
  by (relation "measure length") auto

declare link_back.simps [simp del]

function realpath_loop ::
  "env \<Rightarrow> int \<Rightarrow> string \<Rightarrow> string \<Rightarrow> nat \<Rightarrow> error + string option" where
  "realpath_loop e maxreslth path npath readlinks =
     (case path of
        [] \<Rightarrow> Inr (Some npath)
      | c # p1 \<Rightarrow>
          if c = CHR ''/'' then realpath_loop e maxreslth p1 npath readlinks
          else if c = CHR ''.'' \<and> (p1 = [] \<or> hd p1 = CHR ''/'')
          then realpath_loop e maxreslth p1 npath readlinks
          else if c = CHR ''.'' \<and> p1 \<noteq> [] \<and> hd p1 = CHR ''.'' \<and>
                  (tl p1 = [] \<or> hd (tl p1) = CHR ''/'')
          then realpath_loop e maxreslth (tl p1) (dotdot_back npath) readlinks
          else
            (case copy_component path npath maxreslth of
               None \<Rightarrow> Inr None
             | Some (path', npath') \<Rightarrow>
                 if readlinks > MAXSYMLINKS then Inr None
                 else
                   (case readlink e npath' of
                      Readlink_Failed \<Rightarrow> Inr None
                    | Not_A_Link \<Rightarrow>
                        realpath_loop e maxreslth path' (npath' @ ''/'') (readlinks + 1)
                    | Link target \<Rightarrow>
                        (let link_path = take PATH_MAX target
                         in case (if link_path \<noteq> [] \<and> hd link_path = CHR ''/''
                                  then Inr [] else link_back npath') of
                              Inl err \<Rightarrow> Inl err
                            | Inr npath'' \<Rightarrow>
                                realpath_loop e maxreslth (link_path @ path')
                                  (npath'' @ ''/'') (readlinks + 1)))))"
  by pat_completeness auto
termination
  by (relation "measures [\<lambda>(e, m, path, npath, readlinks). MAXSYMLINKS + 1 - readlinks,
                          \<lambda>(e, m, path, npath, readlinks). length path]")
     (auto simp: MAXSYMLINKS_def)

declare realpath_loop.simps [simp del]

definition realpath_for_vlimit :: "env \<Rightarrow> string \<Rightarrow> int \<Rightarrow> error + string option" where
  "realpath_for_vlimit e path maxreslth =
     (case (if path = [] \<or> hd path \<noteq> CHR ''/'' then
              (case getcwd e of
                 None \<Rightarrow> Inr None
               | Some cwd \<Rightarrow>
                   if int (length cwd) + 1 > maxreslth - 2 then Inr None
                   else if cwd = [] then Inl OutOfBounds
                   else Inr (Some (path, if last cwd \<noteq> CHR ''/'' then cwd @ ''/'' else cwd)))
            else Inr (Some (tl path, ''/''))) of
        Inl err \<Rightarrow> Inl err
      | Inr None \<Rightarrow> Inr None
      | Inr (Some (path', npath)) \<Rightarrow>
          (case realpath_loop e maxreslth path' npath 0 of
             Inl err \<Rightarrow> Inl err
           | Inr None \<Rightarrow> Inr None
           | Inr (Some npath') \<Rightarrow>
               if npath' = [] then Inl OutOfBounds
               else Inr (Some (if length npath' \<noteq> 1 \<and> last npath' = CHR ''/''
                               then butlast npath' else npath'))))"

definition handler_check_limit ::
  "env \<Rightarrow> request_rec \<Rightarrow> vlimit_config \<Rightarrow> world \<Rightarrow> error + (int \<times> world)" where
  "handler_check_limit e r cfg w =
     (case vlimit_check_limit e r cfg (dbg e ''vlimit_handler: '' ''Entering normal handler'' w) of
        Inl err \<Rightarrow> Inl err
      | Inr (result, w1) \<Rightarrow>
          Inr (result, dbg e ''vlimit_handler: '' ''Exiting normal handler'' w1))"

definition vlimit_handler ::
  "env \<Rightarrow> request_rec \<Rightarrow> vlimit_config \<Rightarrow> world \<Rightarrow> error + (int \<times> world)" where
  "vlimit_handler e r cfg w =
     (let w0 = dbg e ''vlimit_handler: ''
                 ''cfg->ip_limit=(%d) cfg->file_limit=(%d) cfg->full_path=(%s)'' w
      in case full_path cfg of
           None \<Rightarrow>
             handler_check_limit e r cfg
               (dbg e ''vlimit_handler: '' ''full_path not found. cfg->full_path=(%s)'' w0)
         | Some scope \<Rightarrow>
             (case (if \<not> file_exists e (request_rec.filename r)
                    then Inr (Some (request_rec.filename r))
                    else realpath_for_vlimit e (request_rec.filename r) (int PATH_MAX)) of
                Inl err \<Rightarrow> Inl err
              | Inr None \<Rightarrow>
                  Inr (DECLINED, dbg e ''vlimit_handler: ''
                                   ''realpath_for_vlimit was failed. path=(%s)'' w0)
              | Inr (Some real_path_dir) \<Rightarrow>
                  if scope \<noteq> real_path_dir
                  then Inr (DECLINED,
                            dbg e ''vlimit_handler: '' ''full_path not match end...''
                              (dbg e ''vlimit_handler: ''
                                 ''full_path not match cfg->full_path=(%s) <=> real_path_dir=(%s)''
                                 w0))
                  else handler_check_limit e r cfg
                         (dbg e ''vlimit_handler: ''
                            ''full_path match cfg->full_path=(%s) <=> real_path_dir=(%s)'' w0)))"


subsection \<open>What a hook call leaves behind\<close>

text \<open>
  The part of a hook's result that the statements below are about: the status returned to
  the server, the counter tables, and whether the mutex is still held.
\<close>

definition outcome :: "error + (int \<times> world) \<Rightarrow> error + (int \<times> SHM_DATA \<times> bool)" where
  "outcome x =
     (case x of Inl err \<Rightarrow> Inl err | Inr (rc, w) \<Rightarrow> Inr (rc, limit_stat w, mutex_held w))"

text \<open>The comparisons made by \<^verbatim>\<open>check_virtualhost_name\<close>, without its log lines.\<close>

definition vhost_match :: "request_rec \<Rightarrow> bool" where
  "vhost_match r \<longleftrightarrow>
     access_host r = server_hostname r \<or>
     (case server_names r of None \<Rightarrow> False | Some names \<Rightarrow> access_host r \<in> set names)"

text \<open>The operations on the tables, for statements about each of them.\<close>

datatype counter_op = Inc_File | Dec_File | Unset_File | Inc_Ip | Dec_Ip | Unset_Ip

fun apply_op :: "env \<Rightarrow> counter_op \<Rightarrow> request_rec \<Rightarrow> world \<Rightarrow> error + world" where
  "apply_op e Inc_File r w =
     (case inc_file_counter (limit_stat w) r of
        Inl err \<Rightarrow> Inl err | Inr (stat, ls) \<Rightarrow> Inr (w\<lparr>limit_stat := ls\<rparr>))"
| "apply_op e Dec_File r w = Inr (snd (dec_file_counter e r w))"
| "apply_op e Unset_File r w =
     (case unset_file_counter (limit_stat w) r of
        Inl err \<Rightarrow> Inl err | Inr ls \<Rightarrow> Inr (w\<lparr>limit_stat := ls\<rparr>))"
| "apply_op e Inc_Ip r w =
     (case inc_ip_counter (limit_stat w) r of
        Inl err \<Rightarrow> Inl err | Inr (stat, ls) \<Rightarrow> Inr (w\<lparr>limit_stat := ls\<rparr>))"
| "apply_op e Dec_Ip r w = Inr (snd (dec_ip_counter e r w))"
| "apply_op e Unset_Ip r w =
     (case unset_ip_counter (limit_stat w) r of
        Inl err \<Rightarrow> Inl err | Inr ls \<Rightarrow> Inr (w\<lparr>limit_stat := ls\<rparr>))"

subsection \<open>The host predicate in the words of the specification\<close>

text \<open>
  The specification describes the host comparison as: take the Host header value, or the
  sentinel when there is none, strip the optional \<^verbatim>\<open>:port\<close> suffix, and compare with the
  primary name and with every alias. A port suffix is a colon followed by digits up to the
  end of the value (the port may be empty, as in \<^verbatim>\<open>host:\<close>); \<open>strip_port\<close> removes such a
  suffix and returns a value that has none as it is. It knows nothing of \<^verbatim>\<open>strtok\<close>: the
  colons of \<^verbatim>\<open>[2001:db8::1]:8080\<close> that are not part of the port stay.
\<close>

definition is_digit :: "char \<Rightarrow> bool" where
  "is_digit c \<longleftrightarrow> c \<in> set ''0123456789''"

definition strip_port :: "string \<Rightarrow> string" where
  "strip_port host =
     (let before_port = dropWhile is_digit (rev host)
      in if before_port \<noteq> [] \<and> hd before_port = CHR '':''
         then rev (tl before_port) else host)"


subsection \<open>Concrete inputs\<close>

text \<open>The tables as \<^verbatim>\<open>vlimit_init\<close> leaves them: every key empty, every counter 0.\<close>

definition shm_init :: SHM_DATA where
  "shm_init =
     \<lparr>file_stat_shm = replicate MAX_CLIENTS \<lparr>file_stat.filename = [], file_stat.counter = 0\<rparr>,
      ip_stat_shm = replicate MAX_CLIENTS \<lparr>ip_stat.address = [], ip_stat.counter = 0\<rparr>\<rparr>"

text \<open>
  \<open>shm_open nf ni\<close>: the first file slot counts \<open>nf\<close> open requests for \<^verbatim>\<open>index.html\<close> and
  the first IP slot counts \<open>ni\<close> open requests from \<^verbatim>\<open>192.0.2.7\<close>; every other slot is empty.
\<close>

definition shm_open :: "int \<Rightarrow> int \<Rightarrow> SHM_DATA" where
  "shm_open nf ni =
     \<lparr>file_stat_shm = (file_stat_shm shm_init)
         [0 := \<lparr>file_stat.filename = ''index.html'', file_stat.counter = nf\<rparr>],
      ip_stat_shm = (ip_stat_shm shm_init)
         [0 := \<lparr>ip_stat.address = ''192.0.2.7'', ip_stat.counter = ni\<rparr>]\<rparr>"

text \<open>
  Both tables full: 512 pages, each requested once, from 512 addresses. \<open>dec\<close> writes a
  number in decimal.
\<close>

fun dec :: "nat \<Rightarrow> string" where
  "dec n = (if n < 10 then [char_of (48 + n)] else dec (n div 10) @ [char_of (48 + n mod 10)])"

declare dec.simps [simp del]

definition shm_full :: SHM_DATA where
  "shm_full =
     \<lparr>file_stat_shm =
        map (\<lambda>i. \<lparr>file_stat.filename = ''page'' @ dec i @ ''.html'', file_stat.counter = 1\<rparr>)
          [0..<MAX_CLIENTS],
      ip_stat_shm =
        map (\<lambda>i. \<lparr>ip_stat.address = ''10.0.'' @ dec (i div 256) @ ''.'' @ dec (i mod 256),
                  ip_stat.counter = 1\<rparr>)
          [0..<MAX_CLIENTS]\<rparr>"

definition world_of :: "SHM_DATA \<Rightarrow> world" where
  "world_of d =
     \<lparr>limit_stat = d, mutex_held = False, syslog = [], vlimit_log = [],
      ip_stat_list = None, file_stat_list = None\<rparr>"

text \<open>
  No flag file exists, locking and unlocking succeed, no path exists and nothing is a
  symbolic link.
\<close>

definition env_quiet :: env where
  "env_quiet =
     \<lparr>debug_flag = False, log_flag = False, ip_stat_flag = False, file_stat_flag = False,
      stat_open_ok = True, lock_status = 0, unlock_status = 0,
      file_exists = (\<lambda>p. False), readlink = (\<lambda>p. Not_A_Link), getcwd = Some ''/''\<rparr>"

definition request_index :: request_rec where
  "request_index =
     \<lparr>request_rec.filename = ''/var/www/html/index.html'', remote_ip = ''192.0.2.7'',
      host_header = Some ''www.example.com:8080'', server_hostname = ''www.example.com'',
      server_names = Some [''example.com''], has_main = False, has_prev = False\<rparr>"

definition config_limits :: "int \<Rightarrow> int \<Rightarrow> vlimit_config" where
  "config_limits ip file =
     \<lparr>type = 0, ip_limit = ip, file_limit = file, conf_id = 0, full_path = None\<rparr>"



text \<open>A request for a file whose name has 300 characters.\<close>

definition request_long :: request_rec where
  "request_long =
     request_index\<lparr>request_rec.filename := ''/var/www/html/'' @ replicate 300 CHR ''a''\<rparr>"




text \<open>Both limits 2, for requests whose path is \<open>scope\<close>.\<close>

definition config_scope :: "string \<Rightarrow> vlimit_config" where
  "config_scope scope = (config_limits 2 2)\<lparr>full_path := Some scope\<rparr>"

text \<open>As \<open>env_quiet\<close>, with the debug flag file present.\<close>

definition env_debug :: env where
  "env_debug = env_quiet\<lparr>debug_flag := True\<rparr>"

text \<open>The request of \<open>request_index\<close> as a sub-request.\<close>

definition request_sub :: request_rec where
  "request_sub = request_index\<lparr>has_main := True\<rparr>"

text \<open>A request for another page from another address.\<close>

definition request_other :: request_rec where
  "request_other =
     request_index\<lparr>request_rec.filename := ''/var/www/html/about.html'',
                   remote_ip := ''198.51.100.9''\<rparr>"

text \<open>The sub-request of \<open>request_sub\<close>, made by another client.\<close>

definition request_sub_other :: request_rec where
  "request_sub_other = request_sub\<lparr>remote_ip := ''198.51.100.9''\<rparr>"

text \<open>Only the file limit is set (to 2), for requests whose path is \<open>scope\<close>.\<close>

definition config_file_scope :: "string \<Rightarrow> vlimit_config" where
  "config_file_scope scope = (config_limits 0 2)\<lparr>full_path := Some scope\<rparr>"


section \<open>Properties\<close>

subsection \<open>Diagnostics leave the tables and the mutex alone\<close>

lemma outcome_simps [simp]:
  "outcome (Inl err) = Inl err"
  "outcome (Inr p) = Inr (fst p, limit_stat (snd p), mutex_held (snd p))"
  by (simp_all add: outcome_def split_def)

lemma dbg_fields [simp]:
  "limit_stat (dbg e k m w) = limit_stat w"
  "mutex_held (dbg e k m w) = mutex_held w"
  "vlimit_log (dbg e k m w) = vlimit_log w"
  "ip_stat_list (dbg e k m w) = ip_stat_list w"
  "file_stat_list (dbg e k m w) = file_stat_list w"
  "syslog (dbg e k m w) = (if debug_flag e then syslog w @ [''mod_vlimit: '' @ k @ m] else syslog w)"
  by (simp_all add: dbg_def VLIMIT_DEBUG_SYSLOG_def)

lemma vlimit_logging_fields [simp]:
  "limit_stat (snd (vlimit_logging e m r cfg w)) = limit_stat w"
  "mutex_held (snd (vlimit_logging e m r cfg w)) = mutex_held w"
  by (simp_all add: vlimit_logging_def)

lemma make_ip_slot_list_fields [simp]:
  "limit_stat (snd (make_ip_slot_list e w)) = limit_stat w"
  "mutex_held (snd (make_ip_slot_list e w)) = mutex_held w"
  by (simp_all add: make_ip_slot_list_def)

lemma make_file_slot_list_fields [simp]:
  "limit_stat (snd (make_file_slot_list e w)) = limit_stat w"
  "mutex_held (snd (make_file_slot_list e w)) = mutex_held w"
  by (simp_all add: make_file_slot_list_def)

lemma alias_loop_fst: "fst (alias_loop e h names w) \<longleftrightarrow> h \<in> set names"
  by (induction names arbitrary: w) (auto simp: Let_def)

lemma alias_loop_fields [simp]:
  "limit_stat (snd (alias_loop e h names w)) = limit_stat w"
  "mutex_held (snd (alias_loop e h names w)) = mutex_held w"
  by (induction names arbitrary: w) (auto simp: Let_def)

lemma check_virtualhost_name_fst:
  "fst (check_virtualhost_name e r w) = (if vhost_match r then 0 else 1)"
proof (cases "server_names r")
  case None
  then show ?thesis by (simp add: check_virtualhost_name_def vhost_match_def)
next
  case (Some names)
  obtain b w1 where al: "alias_loop e (access_host r) names w = (b, w1)"
    by (cases "alias_loop e (access_host r) names w")
  have "b \<longleftrightarrow> access_host r \<in> set names"
    using alias_loop_fst [of e "access_host r" names w] al by simp
  then show ?thesis
    using Some al by (simp add: check_virtualhost_name_def vhost_match_def)
qed

lemma check_virtualhost_name_fields [simp]:
  "limit_stat (snd (check_virtualhost_name e r w)) = limit_stat w"
  "mutex_held (snd (check_virtualhost_name e r w)) = mutex_held w"
proof -
  obtain b w1 where al:
    "(case server_names r of None \<Rightarrow> (False, w)
      | Some names \<Rightarrow> alias_loop e (access_host r) names w) = (b, w1)"
    by (cases "case server_names r of None \<Rightarrow> (False, w)
               | Some names \<Rightarrow> alias_loop e (access_host r) names w")
  have "limit_stat w1 = limit_stat w \<and> mutex_held w1 = mutex_held w"
  proof (cases "server_names r")
    case None
    with al show ?thesis by simp
  next
    case (Some names)
    with al have "w1 = snd (alias_loop e (access_host r) names w)" by simp
    then show ?thesis by simp
  qed
  then show "limit_stat (snd (check_virtualhost_name e r w)) = limit_stat w"
    and "mutex_held (snd (check_virtualhost_name e r w)) = mutex_held w"
    using al by (simp_all add: check_virtualhost_name_def split: bool.splits)
qed

lemma slot_scan_bounds:
  "slot_scan hit tbl i = - 1 \<or> (int i \<le> slot_scan hit tbl i \<and> slot_scan hit tbl i < int MAX_CLIENTS)"
proof (induction hit tbl i rule: slot_scan.induct)
  case (1 hit tbl i)
  then show ?case by (subst (1 2 3) slot_scan.simps) auto
qed

lemma slot_scan_miss_iff:
  "slot_scan hit tbl i = - 1 \<longleftrightarrow> (\<forall>j. i \<le> j \<and> j < MAX_CLIENTS \<longrightarrow> \<not> hit (tbl ! j))"
proof (induction hit tbl i rule: slot_scan.induct)
  case (1 hit tbl i)
  show ?case
  proof (cases "i < MAX_CLIENTS")
    case False
    then show ?thesis by (subst slot_scan.simps) auto
  next
    case True
    show ?thesis
    proof (cases "hit (tbl ! i)")
      case True
      with \<open>i < MAX_CLIENTS\<close> show ?thesis by (subst slot_scan.simps) auto
    next
      case False
      have "slot_scan hit tbl i = slot_scan hit tbl (i + 1)"
        using False \<open>i < MAX_CLIENTS\<close> by (subst slot_scan.simps) simp
      moreover have "(\<forall>j. i \<le> j \<and> j < MAX_CLIENTS \<longrightarrow> \<not> hit (tbl ! j)) \<longleftrightarrow>
                     (\<forall>j. i + 1 \<le> j \<and> j < MAX_CLIENTS \<longrightarrow> \<not> hit (tbl ! j))"
        using False by (metis Suc_eq_plus1 Suc_leI le_eq_less_or_eq Suc_leD)
      ultimately show ?thesis using "1.IH" [OF True False] by simp
    qed
  qed
qed

lemma slot_scan_found_iff:
  "slot_scan hit tbl i = int k \<longleftrightarrow>
     i \<le> k \<and> k < MAX_CLIENTS \<and> hit (tbl ! k) \<and> (\<forall>j. i \<le> j \<and> j < k \<longrightarrow> \<not> hit (tbl ! j))"
proof (induction hit tbl i rule: slot_scan.induct)
  case (1 hit tbl i)
  show ?case
  proof (cases "i < MAX_CLIENTS")
    case False
    then show ?thesis by (subst slot_scan.simps) auto
  next
    case True
    show ?thesis
    proof (cases "hit (tbl ! i)")
      case True
      have "slot_scan hit tbl i = int i"
        using True \<open>i < MAX_CLIENTS\<close> by (subst slot_scan.simps) simp
      moreover have "(i \<le> k \<and> k < MAX_CLIENTS \<and> hit (tbl ! k) \<and> (\<forall>j. i \<le> j \<and> j < k \<longrightarrow> \<not> hit (tbl ! j))) \<longleftrightarrow> k = i"
        using True \<open>i < MAX_CLIENTS\<close> by (auto simp: le_less)
      ultimately show ?thesis by auto
    next
      case False
      have "slot_scan hit tbl i = slot_scan hit tbl (i + 1)"
        using False \<open>i < MAX_CLIENTS\<close> by (subst slot_scan.simps) simp
      moreover have "(i \<le> k \<and> k < MAX_CLIENTS \<and> hit (tbl ! k) \<and> (\<forall>j. i \<le> j \<and> j < k \<longrightarrow> \<not> hit (tbl ! j))) \<longleftrightarrow>
                     (i + 1 \<le> k \<and> k < MAX_CLIENTS \<and> hit (tbl ! k) \<and> (\<forall>j. i + 1 \<le> j \<and> j < k \<longrightarrow> \<not> hit (tbl ! j)))"
        using False by (metis Suc_eq_plus1 Suc_leI le_eq_less_or_eq Suc_leD)
      ultimately show ?thesis using "1.IH" [OF True False] by simp
    qed
  qed
qed


lemma check_limit_decide_fst:
  "fst (check_limit_decide e r cfg ic fc cs w) =
     (if (ip_limit cfg > 0 \<and> ic > ip_limit cfg) \<or> (file_limit cfg > 0 \<and> fc > file_limit cfg)
      then HTTP_SERVICE_UNAVAILABLE else OK)"
  by (simp add: check_limit_decide_def Let_def)

lemma check_limit_decide_fields [simp]:
  "limit_stat (snd (check_limit_decide e r cfg ic fc cs w)) = limit_stat w"
  "mutex_held (snd (check_limit_decide e r cfg ic fc cs w)) = mutex_held w"
  by (simp_all add: check_limit_decide_def Let_def)

lemma check_limit_unlock_fst:
  "fst (check_limit_unlock e r cfg ic fc cs w) =
     (if unlock_status e \<noteq> APR_SUCCESS then OK
      else if (ip_limit cfg > 0 \<and> ic > ip_limit cfg) \<or> (file_limit cfg > 0 \<and> fc > file_limit cfg)
      then HTTP_SERVICE_UNAVAILABLE else OK)"
  by (simp add: check_limit_unlock_def Let_def check_limit_decide_fst)

lemma check_limit_unlock_fields [simp]:
  "limit_stat (snd (check_limit_unlock e r cfg ic fc cs w)) = limit_stat w"
  "mutex_held (snd (check_limit_unlock e r cfg ic fc cs w)) =
     (unlock_status e \<noteq> APR_SUCCESS \<and> mutex_held w)"
  by (simp_all add: check_limit_unlock_def Let_def)

lemma outcome_check_limit_ip:
  "outcome (check_limit_ip e r cfg fc cs w) =
     (if ip_limit cfg > 0 then
        (case inc_ip_counter (limit_stat w) r of
           Inl err \<Rightarrow> Inl err
         | Inr (stat, ls) \<Rightarrow>
             if stat = - 1 then Inr (HTTP_SERVICE_UNAVAILABLE, ls, mutex_held w)
             else Inr (fst (check_limit_unlock e r cfg (get_ip_counter ls r) fc 0 w), ls,
                       unlock_status e \<noteq> APR_SUCCESS \<and> mutex_held w))
      else Inr (fst (check_limit_unlock e r cfg 0 fc 0 w), limit_stat w,
                unlock_status e \<noteq> APR_SUCCESS \<and> mutex_held w))"
  by (simp add: check_limit_ip_def Let_def check_limit_unlock_fst split: sum.splits prod.splits)

lemma outcome_check_limit_file:
  "outcome (check_limit_file e r cfg w) =
     (if file_limit cfg > 0 then
        (case inc_file_counter (limit_stat w) r of
           Inl err \<Rightarrow> Inl err
         | Inr (stat, ls) \<Rightarrow>
             if stat = - 1 then Inr (HTTP_SERVICE_UNAVAILABLE, ls, mutex_held w)
             else outcome (check_limit_ip e r cfg (get_file_counter ls r) 0 (w\<lparr>limit_stat := ls\<rparr>)))
      else outcome (check_limit_ip e r cfg 0 0 w))"
  by (simp add: check_limit_file_def Let_def outcome_check_limit_ip check_limit_unlock_fst
      split: sum.splits prod.splits)

lemma outcome_check_limit_lock:
  "outcome (check_limit_lock e r cfg w) =
     (if lock_status e \<noteq> APR_SUCCESS then Inr (OK, limit_stat w, mutex_held w)
      else outcome (check_limit_file e r cfg (w\<lparr>mutex_held := True\<rparr>)))"
  by (simp add: check_limit_lock_def Let_def outcome_check_limit_file outcome_check_limit_ip
      check_limit_unlock_fst split: sum.splits prod.splits)

lemma outcome_vlimit_check_limit:
  "outcome (vlimit_check_limit e r cfg w) =
     (if \<not> ap_is_initial_req r \<or> (ip_limit cfg \<le> 0 \<and> file_limit cfg \<le> 0)
      then Inr (DECLINED, limit_stat w, mutex_held w)
      else if fst (check_virtualhost_name e r w) \<noteq> 0 then Inr (OK, limit_stat w, mutex_held w)
      else outcome (check_limit_lock e r cfg w))"
  by (simp add: vlimit_check_limit_def Let_def split_def check_virtualhost_name_fst
      outcome_check_limit_lock outcome_check_limit_file outcome_check_limit_ip
      check_limit_unlock_fst split: sum.splits prod.splits)


lemma outcome_vlimit_check_limit_cong:
  "limit_stat w1 = limit_stat w2 \<Longrightarrow> mutex_held w1 = mutex_held w2 \<Longrightarrow>
   outcome (vlimit_check_limit e r cfg w1) = outcome (vlimit_check_limit e r cfg w2)"
  by (simp add: outcome_vlimit_check_limit outcome_check_limit_lock outcome_check_limit_file
      outcome_check_limit_ip check_limit_unlock_fst check_virtualhost_name_fst
      split: sum.splits prod.splits)

lemma outcome_handler_check_limit:
  "outcome (handler_check_limit e r cfg w) = outcome (vlimit_check_limit e r cfg w)"
proof -
  have "outcome (handler_check_limit e r cfg w) =
        outcome (vlimit_check_limit e r cfg (dbg e ''vlimit_handler: '' ''Entering normal handler'' w))"
    by (simp add: handler_check_limit_def split: sum.splits prod.splits)
  also have "\<dots> = outcome (vlimit_check_limit e r cfg w)"
    by (rule outcome_vlimit_check_limit_cong) simp_all
  finally show ?thesis .
qed

lemma outcome_vlimit_handler:
  "outcome (vlimit_handler e r cfg w) =
     (case full_path cfg of
        None \<Rightarrow> outcome (vlimit_check_limit e r cfg w)
      | Some scope \<Rightarrow>
          (case (if \<not> file_exists e (request_rec.filename r)
                 then Inr (Some (request_rec.filename r))
                 else realpath_for_vlimit e (request_rec.filename r) (int PATH_MAX)) of
             Inl err \<Rightarrow> Inl err
           | Inr None \<Rightarrow> Inr (DECLINED, limit_stat w, mutex_held w)
           | Inr (Some real_path_dir) \<Rightarrow>
               if scope \<noteq> real_path_dir then Inr (DECLINED, limit_stat w, mutex_held w)
               else outcome (vlimit_check_limit e r cfg w)))"
proof -
  have cl: "\<And>k m. outcome (handler_check_limit e r cfg (dbg e k m (dbg e ''vlimit_handler: ''
                 ''cfg->ip_limit=(%d) cfg->file_limit=(%d) cfg->full_path=(%s)'' w))) =
            outcome (vlimit_check_limit e r cfg w)"
    unfolding outcome_handler_check_limit
    by (rule outcome_vlimit_check_limit_cong) simp_all
  show ?thesis
    unfolding vlimit_handler_def Let_def
    by (simp add: cl split: option.splits sum.splits)
qed


subsection \<open>Canonical paths: two runs of \<^verbatim>\<open>realpath_for_vlimit\<close>\<close>



subsection \<open>Lookups and increments\<close>

lemma int_neq_minus_one [simp]: "int k \<noteq> - 1" "- 1 \<noteq> int k"
  by simp_all

lemma slot_scan_cases:
  obtains (miss) "slot_scan hit tbl 0 = - 1" "\<forall>j<MAX_CLIENTS. \<not> hit (tbl ! j)"
  | (found) k where "slot_scan hit tbl 0 = int k" "k < MAX_CLIENTS" "hit (tbl ! k)"
      "\<forall>j<k. \<not> hit (tbl ! j)"
proof (cases "slot_scan hit tbl 0 = - 1")
  case True
  then show ?thesis using miss by (simp add: slot_scan_miss_iff)
next
  case False
  then have "0 \<le> slot_scan hit tbl 0" using slot_scan_bounds [of hit tbl 0] by auto
  then obtain k where k: "slot_scan hit tbl 0 = int k" by (metis nat_0_le)
  then show ?thesis using found [of k] by (simp add: slot_scan_found_iff)
qed

lemma slot_scan_foundI:
  "k < MAX_CLIENTS \<Longrightarrow> hit (tbl ! k) \<Longrightarrow> \<forall>j<k. \<not> hit (tbl ! j) \<Longrightarrow> slot_scan hit tbl 0 = int k"
  by (simp add: slot_scan_found_iff)

lemma slot_scan_missI:
  "\<forall>j<MAX_CLIENTS. \<not> hit (tbl ! j) \<Longrightarrow> slot_scan hit tbl 0 = - 1"
  by (simp add: slot_scan_miss_iff)

lemma file_lookup_ip_update [simp]:
  "get_file_slot_id (ls\<lparr>ip_stat_shm := t\<rparr>) r = get_file_slot_id ls r"
  "get_file_empty_slot_id (ls\<lparr>ip_stat_shm := t\<rparr>) r = get_file_empty_slot_id ls r"
  by (simp_all add: get_file_slot_id_def get_file_empty_slot_id_def)

lemma file_counter_ip_update [simp]:
  "get_file_counter (ls\<lparr>ip_stat_shm := t\<rparr>) r = get_file_counter ls r"
  by (simp add: get_file_counter_def Let_def)

lemma ip_lookup_file_update [simp]:
  "get_ip_slot_id (ls\<lparr>file_stat_shm := t\<rparr>) r = get_ip_slot_id ls r"
  "get_ip_empty_slot_id (ls\<lparr>file_stat_shm := t\<rparr>) r = get_ip_empty_slot_id ls r"
  by (simp_all add: get_ip_slot_id_def get_ip_empty_slot_id_def)

lemma ip_counter_file_update [simp]:
  "get_ip_counter (ls\<lparr>file_stat_shm := t\<rparr>) r = get_ip_counter ls r"
  by (simp add: get_ip_counter_def Let_def)

lemma inc_file_counter_full:
  assumes "get_file_slot_id ls r = - 1" "get_file_empty_slot_id ls r = - 1"
  shows "inc_file_counter ls r = Inr (- 1, ls)"
  using assms by (simp add: inc_file_counter_def)

lemma inc_file_counter_found:
  assumes "get_file_slot_id ls r = int k"
  shows "inc_file_counter ls r =
           Inr (0, ls\<lparr>file_stat_shm := (file_stat_shm ls)
                  [k := (file_stat_shm ls ! k)\<lparr>file_stat.counter :=
                          file_stat.counter (file_stat_shm ls ! k) + 1\<rparr>]\<rparr>)"
  using assms by (simp add: inc_file_counter_def Let_def)

lemma inc_file_counter_new:
  assumes "get_file_slot_id ls r = - 1" "get_file_empty_slot_id ls r = int k"
    and "k < length (file_stat_shm ls)"
  shows "inc_file_counter ls r =
           (if length (basename (request_rec.filename r)) + 1 \<le> MAX_FILENAME
            then Inr (0, ls\<lparr>file_stat_shm := (file_stat_shm ls)
                    [k := (file_stat_shm ls ! k)
                       \<lparr>file_stat.filename := basename (request_rec.filename r),
                        file_stat.counter := file_stat.counter (file_stat_shm ls ! k) + 1\<rparr>]\<rparr>)
            else Inl BufferOverrun)"
  using assms by (simp add: inc_file_counter_def Let_def strcpy_def)

lemma get_file_counter_found:
  "get_file_slot_id ls r = int k \<Longrightarrow> get_file_counter ls r = file_stat.counter (file_stat_shm ls ! k)"
  by (simp add: get_file_counter_def)

lemma get_file_counter_new:
  "get_file_slot_id ls r = - 1 \<Longrightarrow> get_file_empty_slot_id ls r = int k \<Longrightarrow>
   get_file_counter ls r = file_stat.counter (file_stat_shm ls ! k)"
  by (simp add: get_file_counter_def)

lemma get_file_slot_id_cases:
  obtains (miss) "get_file_slot_id ls r = - 1"
      "\<forall>j<MAX_CLIENTS. file_stat.filename (file_stat_shm ls ! j) \<noteq> basename (request_rec.filename r)"
  | (found) k where "get_file_slot_id ls r = int k" "k < MAX_CLIENTS"
      "file_stat.filename (file_stat_shm ls ! k) = basename (request_rec.filename r)"
      "\<forall>j<k. file_stat.filename (file_stat_shm ls ! j) \<noteq> basename (request_rec.filename r)"
  unfolding get_file_slot_id_def
  by (rule slot_scan_cases
        [of "\<lambda>s. file_stat.filename s = basename (request_rec.filename r)" "file_stat_shm ls"])
     auto

lemma get_file_empty_slot_id_cases:
  obtains (miss) "get_file_empty_slot_id ls r = - 1"
      "\<forall>j<MAX_CLIENTS. file_stat.filename (file_stat_shm ls ! j) \<noteq> []"
  | (found) k where "get_file_empty_slot_id ls r = int k" "k < MAX_CLIENTS"
      "file_stat.filename (file_stat_shm ls ! k) = []"
      "\<forall>j<k. file_stat.filename (file_stat_shm ls ! j) \<noteq> []"
  unfolding get_file_empty_slot_id_def
  by (rule slot_scan_cases [of "\<lambda>s. file_stat.filename s = []" "file_stat_shm ls"]) auto


lemma inc_ip_counter_full:
  assumes "get_ip_slot_id ls r = - 1" "get_ip_empty_slot_id ls r = - 1"
  shows "inc_ip_counter ls r = Inr (- 1, ls)"
  using assms by (simp add: inc_ip_counter_def)

lemma inc_ip_counter_found:
  assumes "get_ip_slot_id ls r = int k"
  shows "inc_ip_counter ls r =
           Inr (0, ls\<lparr>ip_stat_shm := (ip_stat_shm ls)
                  [k := (ip_stat_shm ls ! k)\<lparr>ip_stat.counter :=
                          ip_stat.counter (ip_stat_shm ls ! k) + 1\<rparr>]\<rparr>)"
  using assms by (simp add: inc_ip_counter_def Let_def)

lemma inc_ip_counter_new:
  assumes "get_ip_slot_id ls r = - 1" "get_ip_empty_slot_id ls r = int k"
    and "k < length (ip_stat_shm ls)"
  shows "inc_ip_counter ls r =
           (if length (remote_ip r) + 1 \<le> IP_MAX
            then Inr (0, ls\<lparr>ip_stat_shm := (ip_stat_shm ls)
                    [k := (ip_stat_shm ls ! k)
                       \<lparr>ip_stat.address := remote_ip r,
                        ip_stat.counter := ip_stat.counter (ip_stat_shm ls ! k) + 1\<rparr>]\<rparr>)
            else Inl BufferOverrun)"
  using assms by (simp add: inc_ip_counter_def Let_def strcpy_def)

lemma get_ip_counter_found:
  "get_ip_slot_id ls r = int k \<Longrightarrow> get_ip_counter ls r = ip_stat.counter (ip_stat_shm ls ! k)"
  by (simp add: get_ip_counter_def)

lemma get_ip_counter_new:
  "get_ip_slot_id ls r = - 1 \<Longrightarrow> get_ip_empty_slot_id ls r = int k \<Longrightarrow>
   get_ip_counter ls r = ip_stat.counter (ip_stat_shm ls ! k)"
  by (simp add: get_ip_counter_def)

lemma get_ip_slot_id_cases:
  obtains (miss) "get_ip_slot_id ls r = - 1"
      "\<forall>j<MAX_CLIENTS. ip_stat.address (ip_stat_shm ls ! j) \<noteq> remote_ip r"
  | (found) k where "get_ip_slot_id ls r = int k" "k < MAX_CLIENTS"
      "ip_stat.address (ip_stat_shm ls ! k) = remote_ip r"
      "\<forall>j<k. ip_stat.address (ip_stat_shm ls ! j) \<noteq> remote_ip r"
  unfolding get_ip_slot_id_def
  by (rule slot_scan_cases
        [of "\<lambda>s. ip_stat.address s = remote_ip r" "ip_stat_shm ls"])
     auto

lemma get_ip_empty_slot_id_cases:
  obtains (miss) "get_ip_empty_slot_id ls r = - 1"
      "\<forall>j<MAX_CLIENTS. ip_stat.address (ip_stat_shm ls ! j) \<noteq> []"
  | (found) k where "get_ip_empty_slot_id ls r = int k" "k < MAX_CLIENTS"
      "ip_stat.address (ip_stat_shm ls ! k) = []"
      "\<forall>j<k. ip_stat.address (ip_stat_shm ls ! j) \<noteq> []"
  unfolding get_ip_empty_slot_id_def
  by (rule slot_scan_cases [of "\<lambda>s. ip_stat.address s = []" "ip_stat_shm ls"]) auto


subsection \<open>The counting stage of the admission call\<close>

lemma ip_lookup_cong:
  assumes "ip_stat_shm a = ip_stat_shm b"
  shows "get_ip_slot_id a r = get_ip_slot_id b r"
    and "get_ip_empty_slot_id a r = get_ip_empty_slot_id b r"
    and "get_ip_counter a r = get_ip_counter b r"
  using assms by (simp_all add: get_ip_slot_id_def get_ip_empty_slot_id_def get_ip_counter_def Let_def)




subsection \<open>The concrete inputs, evaluated\<close>

lemma request_index_fields [simp]:
  "request_rec.filename request_index = ''/var/www/html/index.html''"
  "remote_ip request_index = ''192.0.2.7''"
  "host_header request_index = Some ''www.example.com:8080''"
  "server_hostname request_index = ''www.example.com''"
  "server_names request_index = Some [''example.com'']"
  "has_main request_index = False"
  "has_prev request_index = False"
  by (simp_all add: request_index_def)

lemma env_quiet_fields [simp]:
  "debug_flag env_quiet = False" "log_flag env_quiet = False"
  "ip_stat_flag env_quiet = False" "file_stat_flag env_quiet = False"
  "lock_status env_quiet = 0" "unlock_status env_quiet = 0"
  "file_exists env_quiet = (\<lambda>p. False)" "readlink env_quiet = (\<lambda>p. Not_A_Link)"
  by (simp_all add: env_quiet_def)

lemma config_limits_fields [simp]:
  "ip_limit (config_limits a b) = a" "file_limit (config_limits a b) = b"
  "full_path (config_limits a b) = None"
  by (simp_all add: config_limits_def)

lemma world_of_fields [simp]:
  "limit_stat (world_of d) = d" "mutex_held (world_of d) = False"
  by (simp_all add: world_of_def)

lemma basename_index [simp]: "basename ''/var/www/html/index.html'' = ''index.html''"
  by (simp add: basename_def)

lemma access_host_index [simp]: "access_host request_index = ''www.example.com''"
  by (simp add: access_host_def strtok_def)

lemma vhost_match_index [simp]: "vhost_match request_index"
  by (simp add: vhost_match_def)

lemma wf_shm_samples [simp]: "wf_shm shm_init" "wf_shm (shm_open nf ni)" "wf_shm shm_full"
  by (simp_all add: wf_shm_def shm_init_def shm_open_def shm_full_def)

lemma lookup_open [simp]:
  "get_file_slot_id (shm_open nf ni) request_index = 0"
  "get_ip_slot_id (shm_open nf ni) request_index = 0"
proof -
  show "get_file_slot_id (shm_open nf ni) request_index = 0"
    unfolding get_file_slot_id_def
    using slot_scan_foundI [of 0 "\<lambda>s. file_stat.filename s = basename (request_rec.filename request_index)"
        "file_stat_shm (shm_open nf ni)"]
    by (simp add: shm_open_def shm_init_def MAX_CLIENTS_def)
  show "get_ip_slot_id (shm_open nf ni) request_index = 0"
    unfolding get_ip_slot_id_def
    using slot_scan_foundI [of 0 "\<lambda>s. ip_stat.address s = remote_ip request_index"
        "ip_stat_shm (shm_open nf ni)"]
    by (simp add: shm_open_def shm_init_def MAX_CLIENTS_def)
qed

lemma counters_open [simp]:
  "get_file_counter (shm_open nf ni) request_index = nf"
  "get_ip_counter (shm_open nf ni) request_index = ni"
proof -
  have "get_file_counter (shm_open nf ni) request_index =
        file_stat.counter (file_stat_shm (shm_open nf ni) ! 0)"
    by (rule get_file_counter_found) simp
  also have "\<dots> = nf"
    by (simp add: shm_open_def shm_init_def MAX_CLIENTS_def)
  finally show "get_file_counter (shm_open nf ni) request_index = nf" .
  have "get_ip_counter (shm_open nf ni) request_index =
        ip_stat.counter (ip_stat_shm (shm_open nf ni) ! 0)"
    by (rule get_ip_counter_found) simp
  also have "\<dots> = ni"
    by (simp add: shm_open_def shm_init_def MAX_CLIENTS_def)
  finally show "get_ip_counter (shm_open nf ni) request_index = ni" .
qed

lemma inc_open [simp]:
  "inc_file_counter (shm_open nf ni) request_index = Inr (0, shm_open (nf + 1) ni)"
  "inc_ip_counter (shm_open nf ni) request_index = Inr (0, shm_open nf (ni + 1))"
proof -
  have "inc_file_counter (shm_open nf ni) request_index =
        Inr (0, (shm_open nf ni)\<lparr>file_stat_shm := (file_stat_shm (shm_open nf ni))
               [0 := (file_stat_shm (shm_open nf ni) ! 0)\<lparr>file_stat.counter :=
                       file_stat.counter (file_stat_shm (shm_open nf ni) ! 0) + 1\<rparr>]\<rparr>)"
    by (rule inc_file_counter_found) simp
  also have "\<dots> = Inr (0, shm_open (nf + 1) ni)"
    by (simp add: shm_open_def shm_init_def MAX_CLIENTS_def)
  finally show "inc_file_counter (shm_open nf ni) request_index = Inr (0, shm_open (nf + 1) ni)" .
  have "inc_ip_counter (shm_open nf ni) request_index =
        Inr (0, (shm_open nf ni)\<lparr>ip_stat_shm := (ip_stat_shm (shm_open nf ni))
               [0 := (ip_stat_shm (shm_open nf ni) ! 0)\<lparr>ip_stat.counter :=
                       ip_stat.counter (ip_stat_shm (shm_open nf ni) ! 0) + 1\<rparr>]\<rparr>)"
    by (rule inc_ip_counter_found) simp
  also have "\<dots> = Inr (0, shm_open nf (ni + 1))"
    by (simp add: shm_open_def shm_init_def MAX_CLIENTS_def)
  finally show "inc_ip_counter (shm_open nf ni) request_index = Inr (0, shm_open nf (ni + 1))" .
qed

lemma lookup_full [simp]:
  "get_file_slot_id shm_full request_index = - 1"
  "get_file_empty_slot_id shm_full request_index = - 1"
  "get_ip_slot_id shm_full request_index = - 1"
  "get_ip_empty_slot_id shm_full request_index = - 1"
  unfolding get_file_slot_id_def get_file_empty_slot_id_def get_ip_slot_id_def get_ip_empty_slot_id_def
  by (rule slot_scan_missI, simp add: shm_full_def MAX_CLIENTS_def)+

lemma env_quiet_update_fields [simp]:
  "debug_flag (env_quiet\<lparr>lock_status := a\<rparr>) = False"
  "log_flag (env_quiet\<lparr>lock_status := a\<rparr>) = False"
  "ip_stat_flag (env_quiet\<lparr>lock_status := a\<rparr>) = False"
  "file_stat_flag (env_quiet\<lparr>lock_status := a\<rparr>) = False"
  "unlock_status (env_quiet\<lparr>lock_status := a\<rparr>) = 0"
  "debug_flag (env_quiet\<lparr>unlock_status := a\<rparr>) = False"
  "log_flag (env_quiet\<lparr>unlock_status := a\<rparr>) = False"
  "ip_stat_flag (env_quiet\<lparr>unlock_status := a\<rparr>) = False"
  "file_stat_flag (env_quiet\<lparr>unlock_status := a\<rparr>) = False"
  "lock_status (env_quiet\<lparr>unlock_status := a\<rparr>) = 0"
  by (simp_all add: env_quiet_def)

lemmas hook_defs =
  vlimit_check_limit_def check_limit_lock_def check_limit_file_def check_limit_ip_def
  check_limit_unlock_def check_limit_decide_def dbg_def VLIMIT_DEBUG_SYSLOG_def
  vlimit_logging_def make_ip_slot_list_def make_file_slot_list_def check_virtualhost_name_def
  ap_is_initial_req_def APR_SUCCESS_def OK_def DECLINED_def HTTP_SERVICE_UNAVAILABLE_def Let_def


lemma run_over_limit:
  "vlimit_check_limit env_quiet request_index (config_limits 2 3) (world_of (shm_open 3 2)) =
     Inr (HTTP_SERVICE_UNAVAILABLE, world_of (shm_open 4 3))"
  by (simp add: hook_defs) (simp add: world_of_def)


subsection \<open>A full table\<close>

text \<open>With a table full, the admission call returns with the mutex held.\<close>

lemma check_limit_file_full:
  assumes "ap_is_initial_req r" "fst (check_virtualhost_name e r w) = 0"
    "lock_status e = APR_SUCCESS" "file_limit cfg > 0"
    "get_file_slot_id (limit_stat w) r = - 1" "get_file_empty_slot_id (limit_stat w) r = - 1"
  shows "outcome (vlimit_check_limit e r cfg w) = Inr (HTTP_SERVICE_UNAVAILABLE, limit_stat w, True)"
  using assms
  by (simp add: outcome_vlimit_check_limit outcome_check_limit_lock outcome_check_limit_file
      inc_file_counter_full)

lemma check_limit_ip_full:
  assumes "ap_is_initial_req r" "fst (check_virtualhost_name e r w) = 0"
    "lock_status e = APR_SUCCESS" "\<not> file_limit cfg > 0" "ip_limit cfg > 0"
    "get_ip_slot_id (limit_stat w) r = - 1" "get_ip_empty_slot_id (limit_stat w) r = - 1"
  shows "outcome (vlimit_check_limit e r cfg w) = Inr (HTTP_SERVICE_UNAVAILABLE, limit_stat w, True)"
  using assms
  by (simp add: outcome_vlimit_check_limit outcome_check_limit_lock outcome_check_limit_file
      outcome_check_limit_ip inc_ip_counter_full)

subsection \<open>The library functions\<close>

lemma strtok_again: "strtok (strtok_buffer s delim) delim = strtok s delim"
proof -
  let ?P = "\<lambda>c. c \<in> set delim" and ?Q = "\<lambda>c. c \<notin> set delim"
  let ?t = "dropWhile ?P s"
  have drop: "dropWhile ?P (strtok_buffer s delim) = dropWhile ?P (takeWhile ?Q ?t)"
    unfolding strtok_buffer_def by (rule dropWhile_append2) (auto dest: set_takeWhileD)
  have keep: "dropWhile ?P (takeWhile ?Q ?t) = takeWhile ?Q ?t"
    by (simp add: dropWhile_eq_self_iff) (metis hd_in_set set_takeWhileD)
  show ?thesis
  proof (cases "?t = []")
    case True
    show ?thesis unfolding strtok_def Let_def drop True by simp
  next
    case False
    then have "\<not> ?P (hd ?t)" by (rule hd_dropWhile)
    then have "takeWhile ?Q ?t \<noteq> []" using False by (cases ?t) auto
    then show ?thesis using False drop keep by (simp add: strtok_def Let_def)
  qed
qed

lemma basename_stripped:
  assumes "rev (dropWhile (\<lambda>c. c = CHR ''/'') (rev path)) \<noteq> []"
  shows "basename (rev (dropWhile (\<lambda>c. c = CHR ''/'') (rev path))) = basename path"
proof -
  define d where "d = dropWhile (\<lambda>c. c = CHR ''/'') (rev path)"
  have d: "d \<noteq> []" using assms by (simp add: d_def)
  have idem: "dropWhile (\<lambda>c. c = CHR ''/'') d = d" by (simp add: d_def)
  have path: "path \<noteq> []" using d by (auto simp: d_def)
  have "basename (rev d) = rev (takeWhile (\<lambda>c. c \<noteq> CHR ''/'') d)"
    using d idem by (simp add: basename_def Let_def)
  moreover have "basename path = rev (takeWhile (\<lambda>c. c \<noteq> CHR ''/'') d)"
    using d path unfolding basename_def Let_def d_def [symmetric] by simp
  ultimately show ?thesis by (simp add: d_def)
qed

lemma basename_of_path:
  assumes "name \<noteq> []" "CHR ''/'' \<notin> set name"
  shows "basename (dir @ CHR ''/'' # name) = name"
proof -
  let ?P = "\<lambda>c. c = CHR ''/''"
  have r: "rev (dir @ CHR ''/'' # name) = rev name @ CHR ''/'' # rev dir" by simp
  have "last name \<in> set name" using assms(1) by simp
  then have "last name \<noteq> CHR ''/''" using assms(2) by metis
  then have "rev name \<noteq> []" "\<not> ?P (hd (rev name))"
    using assms(1) by (simp_all add: hd_rev)
  then have d: "dropWhile ?P (rev name @ CHR ''/'' # rev dir) = rev name @ CHR ''/'' # rev dir"
    by (simp add: dropWhile_eq_self_iff)
  have "takeWhile (\<lambda>c. c \<noteq> CHR ''/'') (rev name @ CHR ''/'' # rev dir) =
        rev name @ takeWhile (\<lambda>c. c \<noteq> CHR ''/'') (CHR ''/'' # rev dir)"
    by (rule takeWhile_append2) (use assms(2) in auto)
  then have t: "takeWhile (\<lambda>c. c \<noteq> CHR ''/'') (rev name @ CHR ''/'' # rev dir) = rev name"
    by simp
  show ?thesis
    unfolding basename_def r d Let_def using t by simp
qed

subsection \<open>A long file name\<close>

lemma basename_long: "basename (request_rec.filename request_long) = replicate 300 CHR ''a''"
  using basename_of_path [of "replicate 300 CHR ''a''" "''/var/www/html''"]
  by (simp add: request_long_def)

lemma lookup_init_long:
  "get_file_slot_id shm_init request_long = - 1"
  "get_file_empty_slot_id shm_init request_long = 0"
proof -
  show "get_file_slot_id shm_init request_long = - 1"
    unfolding get_file_slot_id_def basename_long
    by (rule slot_scan_missI) (simp add: shm_init_def MAX_CLIENTS_def)
  show "get_file_empty_slot_id shm_init request_long = 0"
    unfolding get_file_empty_slot_id_def
    using slot_scan_foundI [of 0 "\<lambda>s. file_stat.filename s = []" "file_stat_shm shm_init"]
    by (simp add: shm_init_def MAX_CLIENTS_def)
qed

subsection \<open>Decrement and reclaim\<close>

lemma unset_file_counter_found:
  "get_file_slot_id ls r = int k \<Longrightarrow>
   unset_file_counter ls r =
     Inr (if file_stat.counter (file_stat_shm ls ! k) = 0
          then ls\<lparr>file_stat_shm := (file_stat_shm ls)
                 [k := (file_stat_shm ls ! k)\<lparr>file_stat.filename := []\<rparr>]\<rparr>
          else ls)"
  by (simp add: unset_file_counter_def Let_def)

lemma unset_file_counter_miss:
  "get_file_slot_id ls r = - 1 \<Longrightarrow> unset_file_counter ls r = Inl OutOfBounds"
  by (simp add: unset_file_counter_def Let_def)

lemma dec_file_counter_found:
  "get_file_slot_id (limit_stat w) r = int k \<Longrightarrow>
   dec_file_counter e r w =
     (0, w\<lparr>limit_stat := (limit_stat w)\<lparr>file_stat_shm := (file_stat_shm (limit_stat w))
            [k := (file_stat_shm (limit_stat w) ! k)\<lparr>file_stat.counter :=
                    file_stat.counter (file_stat_shm (limit_stat w) ! k) - 1\<rparr>]\<rparr>\<rparr>)"
  by (simp add: dec_file_counter_def Let_def)

lemma dec_file_counter_miss:
  "get_file_slot_id (limit_stat w) r = - 1 \<Longrightarrow>
   dec_file_counter e r w =
     (- 1, dbg e ''dec_file_counter: '' ''unexpected error. file slot not found.'' w)"
  by (simp add: dec_file_counter_def Let_def)

text \<open>No operation on the file table changes the key of an occupied slot whose counter is positive.\<close>

lemma inc_file_counter_keys:
  assumes wf: "length (file_stat_shm ls) = MAX_CLIENTS"
    and inc: "inc_file_counter ls r = Inr (stat, ls')"
    and j: "j < MAX_CLIENTS" and occ: "file_stat.filename (file_stat_shm ls ! j) \<noteq> []"
  shows "file_stat.filename (file_stat_shm ls' ! j) = file_stat.filename (file_stat_shm ls ! j)"
proof (cases rule: get_file_slot_id_cases [of ls r])
  case (found k)
  then show ?thesis
    using inc inc_file_counter_found [OF found(1)] wf j by (auto simp: nth_list_update)
next
  case miss
  show ?thesis
  proof (cases rule: get_file_empty_slot_id_cases [of ls r])
    case miss': miss
    then show ?thesis using miss inc by (simp add: inc_file_counter_full)
  next
    case (found k)
    then have "k \<noteq> j" using occ by auto
    then show ?thesis
      using inc inc_file_counter_new [OF miss(1) found(1)] found(2) wf j
      by (auto simp: nth_list_update split: if_splits)
  qed
qed

lemma dec_file_counter_keys:
  assumes "length (file_stat_shm (limit_stat w)) = MAX_CLIENTS" "j < MAX_CLIENTS"
  shows "file_stat.filename (file_stat_shm (limit_stat (snd (dec_file_counter e r w))) ! j) =
         file_stat.filename (file_stat_shm (limit_stat w) ! j)"
proof (cases rule: get_file_slot_id_cases [of "limit_stat w" r])
  case (found k)
  then show ?thesis
    using assms by (auto simp: dec_file_counter_found nth_list_update)
next
  case miss
  then show ?thesis by (simp add: dec_file_counter_miss)
qed

lemma unset_file_counter_keys:
  assumes "length (file_stat_shm ls) = MAX_CLIENTS" "j < MAX_CLIENTS"
    and "unset_file_counter ls r = Inr ls'"
    and "file_stat.counter (file_stat_shm ls ! j) > 0"
  shows "file_stat.filename (file_stat_shm ls' ! j) = file_stat.filename (file_stat_shm ls ! j)"
proof (cases rule: get_file_slot_id_cases [of ls r])
  case (found k)
  then show ?thesis
    using assms by (auto simp: unset_file_counter_found nth_list_update split: if_splits)
next
  case miss
  then show ?thesis using assms by (simp add: unset_file_counter_miss)
qed

lemma file_ops_ip_table:
  "inc_file_counter ls r = Inr (stat, ls') \<Longrightarrow> ip_stat_shm ls' = ip_stat_shm ls"
  "unset_file_counter ls r = Inr ls' \<Longrightarrow> ip_stat_shm ls' = ip_stat_shm ls"
  "ip_stat_shm (limit_stat (snd (dec_file_counter e r w))) = ip_stat_shm (limit_stat w)"
  by (auto simp: inc_file_counter_def unset_file_counter_def dec_file_counter_def Let_def
      split: if_splits sum.splits)

lemma unset_ip_counter_found:
  "get_ip_slot_id ls r = int k \<Longrightarrow>
   unset_ip_counter ls r =
     Inr (if ip_stat.counter (ip_stat_shm ls ! k) = 0
          then ls\<lparr>ip_stat_shm := (ip_stat_shm ls)
                 [k := (ip_stat_shm ls ! k)\<lparr>ip_stat.address := []\<rparr>]\<rparr>
          else ls)"
  by (simp add: unset_ip_counter_def Let_def)

lemma unset_ip_counter_miss:
  "get_ip_slot_id ls r = - 1 \<Longrightarrow> unset_ip_counter ls r = Inl OutOfBounds"
  by (simp add: unset_ip_counter_def Let_def)

lemma dec_ip_counter_found:
  "get_ip_slot_id (limit_stat w) r = int k \<Longrightarrow>
   dec_ip_counter e r w =
     (0, w\<lparr>limit_stat := (limit_stat w)\<lparr>ip_stat_shm := (ip_stat_shm (limit_stat w))
            [k := (ip_stat_shm (limit_stat w) ! k)\<lparr>ip_stat.counter :=
                    ip_stat.counter (ip_stat_shm (limit_stat w) ! k) - 1\<rparr>]\<rparr>\<rparr>)"
  by (simp add: dec_ip_counter_def Let_def)

lemma dec_ip_counter_miss:
  "get_ip_slot_id (limit_stat w) r = - 1 \<Longrightarrow>
   dec_ip_counter e r w =
     (- 1, dbg e ''dec_ip_counter: '' ''unexpected error. ip slot not found.'' w)"
  by (simp add: dec_ip_counter_def Let_def)

text \<open>No operation on the IP table changes the key of an occupied slot whose counter is positive.\<close>

lemma inc_ip_counter_keys:
  assumes wf: "length (ip_stat_shm ls) = MAX_CLIENTS"
    and inc: "inc_ip_counter ls r = Inr (stat, ls')"
    and j: "j < MAX_CLIENTS" and occ: "ip_stat.address (ip_stat_shm ls ! j) \<noteq> []"
  shows "ip_stat.address (ip_stat_shm ls' ! j) = ip_stat.address (ip_stat_shm ls ! j)"
proof (cases rule: get_ip_slot_id_cases [of ls r])
  case (found k)
  then show ?thesis
    using inc inc_ip_counter_found [OF found(1)] wf j by (auto simp: nth_list_update)
next
  case miss
  show ?thesis
  proof (cases rule: get_ip_empty_slot_id_cases [of ls r])
    case miss': miss
    then show ?thesis using miss inc by (simp add: inc_ip_counter_full)
  next
    case (found k)
    then have "k \<noteq> j" using occ by auto
    then show ?thesis
      using inc inc_ip_counter_new [OF miss(1) found(1)] found(2) wf j
      by (auto simp: nth_list_update split: if_splits)
  qed
qed

lemma dec_ip_counter_keys:
  assumes "length (ip_stat_shm (limit_stat w)) = MAX_CLIENTS" "j < MAX_CLIENTS"
  shows "ip_stat.address (ip_stat_shm (limit_stat (snd (dec_ip_counter e r w))) ! j) =
         ip_stat.address (ip_stat_shm (limit_stat w) ! j)"
proof (cases rule: get_ip_slot_id_cases [of "limit_stat w" r])
  case (found k)
  then show ?thesis
    using assms by (auto simp: dec_ip_counter_found nth_list_update)
next
  case miss
  then show ?thesis by (simp add: dec_ip_counter_miss)
qed

lemma unset_ip_counter_keys:
  assumes "length (ip_stat_shm ls) = MAX_CLIENTS" "j < MAX_CLIENTS"
    and "unset_ip_counter ls r = Inr ls'"
    and "ip_stat.counter (ip_stat_shm ls ! j) > 0"
  shows "ip_stat.address (ip_stat_shm ls' ! j) = ip_stat.address (ip_stat_shm ls ! j)"
proof (cases rule: get_ip_slot_id_cases [of ls r])
  case (found k)
  then show ?thesis
    using assms by (auto simp: unset_ip_counter_found nth_list_update split: if_splits)
next
  case miss
  then show ?thesis using assms by (simp add: unset_ip_counter_miss)
qed

lemma ip_ops_file_table:
  "inc_ip_counter ls r = Inr (stat, ls') \<Longrightarrow> file_stat_shm ls' = file_stat_shm ls"
  "unset_ip_counter ls r = Inr ls' \<Longrightarrow> file_stat_shm ls' = file_stat_shm ls"
  "file_stat_shm (limit_stat (snd (dec_ip_counter e r w))) = file_stat_shm (limit_stat w)"
  by (auto simp: inc_ip_counter_def unset_ip_counter_def dec_ip_counter_def Let_def
      split: if_splits sum.splits)

subsection \<open>The completion call, block by block\<close>

lemma response_end_file_off:
  "\<not> file_limit cfg > 0 \<Longrightarrow> response_end_file e r cfg cs w = Inr (cs, w)"
  by (simp add: response_end_file_def)

lemma response_end_file_miss:
  assumes "file_limit cfg > 0" "get_file_slot_id (limit_stat w) r = - 1"
  shows "response_end_file e r cfg cs w =
           (if get_file_counter (limit_stat w) r = 0 then Inl OutOfBounds
            else if get_file_counter (limit_stat w) r > 0
            then Inr (- 1, dbg e ''dec_file_counter: '' ''unexpected error. file slot not found.''
                            (dbg e ''vlimit_response_end: '' ''type FILE: file_count--'' w))
            else Inr (cs, dbg e ''vlimit_response_end: '' ''type FILE: file_count--'' w))"
  using assms
  by (simp add: response_end_file_def Let_def dec_file_counter_miss unset_file_counter_miss)


lemma response_end_ip_off:
  "\<not> ip_limit cfg > 0 \<Longrightarrow> response_end_ip e r cfg cs w = Inr (cs, w)"
  by (simp add: response_end_ip_def)

lemma response_end_ip_miss:
  assumes "ip_limit cfg > 0" "get_ip_slot_id (limit_stat w) r = - 1"
  shows "response_end_ip e r cfg cs w =
           (if get_ip_counter (limit_stat w) r = 0 then Inl OutOfBounds
            else if get_ip_counter (limit_stat w) r > 0
            then Inr (- 1, dbg e ''dec_ip_counter: '' ''unexpected error. ip slot not found.''
                            (dbg e ''vlimit_response_end: '' ''type IP: ip_count--'' w))
            else Inr (cs, dbg e ''vlimit_response_end: '' ''type IP: ip_count--'' w))"
  using assms
  by (simp add: response_end_ip_def Let_def dec_ip_counter_miss unset_ip_counter_miss)



lemma dec_file_counter_other [simp]:
  "ip_stat_shm (limit_stat (snd (dec_file_counter e r w))) = ip_stat_shm (limit_stat w)"
  "mutex_held (snd (dec_file_counter e r w)) = mutex_held w"
  by (simp_all add: dec_file_counter_def Let_def)

lemma unset_file_counter_other:
  "unset_file_counter ls r = Inr ls' \<Longrightarrow> ip_stat_shm ls' = ip_stat_shm ls"
  by (auto simp: unset_file_counter_def Let_def split: if_splits)

lemma response_end_file_other:
  assumes "response_end_file e r cfg cs w = Inr (stat, w')"
  shows "ip_stat_shm (limit_stat w') = ip_stat_shm (limit_stat w)"
    and "mutex_held w' = mutex_held w"
proof -
  let ?w1 = "dbg e ''vlimit_response_end: '' ''type FILE: file_count--'' w"
  define p where "p = (if get_file_counter (limit_stat ?w1) r > 0
                       then dec_file_counter e r ?w1 else (cs, ?w1))"
  have p: "ip_stat_shm (limit_stat (snd p)) = ip_stat_shm (limit_stat w)"
    "mutex_held (snd p) = mutex_held w"
    by (simp_all add: p_def)
  have "ip_stat_shm (limit_stat w') = ip_stat_shm (limit_stat w) \<and> mutex_held w' = mutex_held w"
  proof (cases "file_limit cfg > 0")
    case False
    then show ?thesis using assms by (simp add: response_end_file_off)
  next
    case True
    then have eq: "response_end_file e r cfg cs w =
        (if get_file_counter (limit_stat (snd p)) r = 0
         then (case unset_file_counter (limit_stat (snd p)) r of
                 Inl err \<Rightarrow> Inl err
               | Inr ls \<Rightarrow> Inr (fst p, (snd p)\<lparr>limit_stat := ls\<rparr>))
         else Inr (fst p, snd p))"
      unfolding response_end_file_def p_def Let_def split_def by simp
    show ?thesis
    proof (cases "get_file_counter (limit_stat (snd p)) r = 0")
      case False
      then have "w' = snd p" using assms eq by simp
      then show ?thesis using p by simp
    next
      case True
      then obtain ls where u: "unset_file_counter (limit_stat (snd p)) r = Inr ls"
        and w': "w' = (snd p)\<lparr>limit_stat := ls\<rparr>"
        using assms eq by (cases "unset_file_counter (limit_stat (snd p)) r") auto
      show ?thesis using unset_file_counter_other [OF u] w' p by simp
    qed
  qed
  then show "ip_stat_shm (limit_stat w') = ip_stat_shm (limit_stat w)"
    and "mutex_held w' = mutex_held w" by simp_all
qed

lemma dec_ip_counter_other [simp]:
  "file_stat_shm (limit_stat (snd (dec_ip_counter e r w))) = file_stat_shm (limit_stat w)"
  "mutex_held (snd (dec_ip_counter e r w)) = mutex_held w"
  by (simp_all add: dec_ip_counter_def Let_def)

lemma unset_ip_counter_other:
  "unset_ip_counter ls r = Inr ls' \<Longrightarrow> file_stat_shm ls' = file_stat_shm ls"
  by (auto simp: unset_ip_counter_def Let_def split: if_splits)

lemma response_end_ip_other:
  assumes "response_end_ip e r cfg cs w = Inr (stat, w')"
  shows "file_stat_shm (limit_stat w') = file_stat_shm (limit_stat w)"
    and "mutex_held w' = mutex_held w"
proof -
  let ?w1 = "dbg e ''vlimit_response_end: '' ''type IP: ip_count--'' w"
  define p where "p = (if get_ip_counter (limit_stat ?w1) r > 0
                       then dec_ip_counter e r ?w1 else (cs, ?w1))"
  have p: "file_stat_shm (limit_stat (snd p)) = file_stat_shm (limit_stat w)"
    "mutex_held (snd p) = mutex_held w"
    by (simp_all add: p_def)
  have "file_stat_shm (limit_stat w') = file_stat_shm (limit_stat w) \<and> mutex_held w' = mutex_held w"
  proof (cases "ip_limit cfg > 0")
    case False
    then show ?thesis using assms by (simp add: response_end_ip_off)
  next
    case True
    then have eq: "response_end_ip e r cfg cs w =
        (if get_ip_counter (limit_stat (snd p)) r = 0
         then (case unset_ip_counter (limit_stat (snd p)) r of
                 Inl err \<Rightarrow> Inl err
               | Inr ls \<Rightarrow> Inr (fst p, (snd p)\<lparr>limit_stat := ls\<rparr>))
         else Inr (fst p, snd p))"
      unfolding response_end_ip_def p_def Let_def split_def by simp
    show ?thesis
    proof (cases "get_ip_counter (limit_stat (snd p)) r = 0")
      case False
      then have "w' = snd p" using assms eq by simp
      then show ?thesis using p by simp
    next
      case True
      then obtain ls where u: "unset_ip_counter (limit_stat (snd p)) r = Inr ls"
        and w': "w' = (snd p)\<lparr>limit_stat := ls\<rparr>"
        using assms eq by (cases "unset_ip_counter (limit_stat (snd p)) r") auto
      show ?thesis using unset_ip_counter_other [OF u] w' p by simp
    qed
  qed
  then show "file_stat_shm (limit_stat w') = file_stat_shm (limit_stat w)"
    and "mutex_held w' = mutex_held w" by simp_all
qed

lemma response_end_unlock_fields [simp]:
  "fst (response_end_unlock e r cfg cs w) = OK"
  "limit_stat (snd (response_end_unlock e r cfg cs w)) = limit_stat w"
  "mutex_held (snd (response_end_unlock e r cfg cs w)) =
     (unlock_status e \<noteq> APR_SUCCESS \<and> mutex_held w)"
  by (simp_all add: response_end_unlock_def Let_def)

lemma vlimit_response_end_skip:
  assumes "fst (check_virtualhost_name e r w) \<noteq> 0 \<or> lock_status e \<noteq> APR_SUCCESS"
  shows "outcome (vlimit_response_end e r cfg w) = Inr (OK, limit_stat w, mutex_held w)"
proof -
  have h: "fst (check_virtualhost_name e r (dbg e ''vlimit_response_end: '' ''start'' w)) =
           fst (check_virtualhost_name e r w)"
    by (simp add: check_virtualhost_name_fst)
  show ?thesis
  proof (cases "fst (check_virtualhost_name e r w) \<noteq> 0")
    case True
    then show ?thesis by (simp add: vlimit_response_end_def Let_def split_def h)
  next
    case False
    then have "lock_status e \<noteq> APR_SUCCESS" using assms by simp
    then show ?thesis using False by (simp add: vlimit_response_end_def Let_def split_def h)
  qed
qed

lemma vlimit_response_end_run:
  assumes "fst (check_virtualhost_name e r w) = 0" "lock_status e = APR_SUCCESS"
  shows "\<exists>w2. limit_stat w2 = limit_stat w \<and> mutex_held w2 \<and>
           vlimit_response_end e r cfg w =
             (case response_end_file e r cfg (- 2) w2 of
                Inl err \<Rightarrow> Inl err
              | Inr (stat1, w3) \<Rightarrow>
                  (case response_end_ip e r cfg stat1 w3 of
                     Inl err \<Rightarrow> Inl err
                   | Inr (stat2, w4) \<Rightarrow> Inr (response_end_unlock e r cfg stat2 w4)))"
proof -
  let ?w1 = "snd (check_virtualhost_name e r (dbg e ''vlimit_response_end: '' ''start'' w))"
  let ?w2 = "(dbg e ''vlimit_response_end: '' ''vlimit_mutex locked.'' ?w1)\<lparr>mutex_held := True\<rparr>"
  have "fst (check_virtualhost_name e r (dbg e ''vlimit_response_end: '' ''start'' w)) = 0"
    using assms(1) by (simp add: check_virtualhost_name_fst)
  then have "vlimit_response_end e r cfg w =
             (case response_end_file e r cfg (- 2) ?w2 of
                Inl err \<Rightarrow> Inl err
              | Inr (stat1, w3) \<Rightarrow>
                  (case response_end_ip e r cfg stat1 w3 of
                     Inl err \<Rightarrow> Inl err
                   | Inr (stat2, w4) \<Rightarrow> Inr (response_end_unlock e r cfg stat2 w4)))"
    using assms(2) by (simp add: vlimit_response_end_def Let_def split_def)
  moreover have "limit_stat ?w2 = limit_stat w \<and> mutex_held ?w2" by simp
  ultimately show ?thesis by blast
qed

text \<open>A completion run that returns: its two blocks, one after the other.\<close>

lemma vlimit_response_end_blocks:
  assumes host: "fst (check_virtualhost_name e r w) = 0" and lock: "lock_status e = APR_SUCCESS"
    and run: "vlimit_response_end e r cfg w = Inr (rc, w')"
  obtains w2 stat1 w3 stat2 w4 where
    "limit_stat w2 = limit_stat w" "mutex_held w2"
    "response_end_file e r cfg (- 2) w2 = Inr (stat1, w3)"
    "response_end_ip e r cfg stat1 w3 = Inr (stat2, w4)"
    "rc = OK" "limit_stat w' = limit_stat w4"
    "mutex_held w' = (unlock_status e \<noteq> APR_SUCCESS \<and> mutex_held w4)"
proof -
  obtain w2 where w2: "limit_stat w2 = limit_stat w" "mutex_held w2"
    and eq: "vlimit_response_end e r cfg w =
             (case response_end_file e r cfg (- 2) w2 of
                Inl err \<Rightarrow> Inl err
              | Inr (stat1, w3) \<Rightarrow>
                  (case response_end_ip e r cfg stat1 w3 of
                     Inl err \<Rightarrow> Inl err
                   | Inr (stat2, w4) \<Rightarrow> Inr (response_end_unlock e r cfg stat2 w4)))"
    using vlimit_response_end_run [OF host lock, of cfg] by blast
  obtain stat1 w3 where b1: "response_end_file e r cfg (- 2) w2 = Inr (stat1, w3)"
    using run eq by (cases "response_end_file e r cfg (- 2) w2") auto
  obtain stat2 w4 where b2: "response_end_ip e r cfg stat1 w3 = Inr (stat2, w4)"
    using run eq b1 by (cases "response_end_ip e r cfg stat1 w3") auto
  have u: "response_end_unlock e r cfg stat2 w4 = (rc, w')"
    using run eq b1 b2 by simp
  have "rc = OK"
    using response_end_unlock_fields(1) [of e r cfg stat2 w4] unfolding u by simp
  moreover have "limit_stat w' = limit_stat w4"
    using response_end_unlock_fields(2) [of e r cfg stat2 w4] unfolding u by simp
  moreover have "mutex_held w' = (unlock_status e \<noteq> APR_SUCCESS \<and> mutex_held w4)"
    using response_end_unlock_fields(3) [of e r cfg stat2 w4] unfolding u by simp
  ultimately show ?thesis using that [OF w2 b1 b2] by blast
qed

subsection \<open>Decrement on the concrete tables\<close>

lemma slot0_open [simp]:
  "file_stat_shm (shm_open nf ni) ! 0 = \<lparr>file_stat.filename = ''index.html'', file_stat.counter = nf\<rparr>"
  "ip_stat_shm (shm_open nf ni) ! 0 = \<lparr>ip_stat.address = ''192.0.2.7'', ip_stat.counter = ni\<rparr>"
  by (simp_all add: shm_open_def shm_init_def MAX_CLIENTS_def)

lemma dec_open [simp]:
  "dec_file_counter e request_index (world_of (shm_open nf ni)) = (0, world_of (shm_open (nf - 1) ni))"
  "dec_ip_counter e request_index (world_of (shm_open nf ni)) = (0, world_of (shm_open nf (ni - 1)))"
proof -
  have "dec_file_counter e request_index (world_of (shm_open nf ni)) =
     (0, (world_of (shm_open nf ni))\<lparr>limit_stat := (limit_stat (world_of (shm_open nf ni)))
            \<lparr>file_stat_shm := (file_stat_shm (limit_stat (world_of (shm_open nf ni))))
            [0 := (file_stat_shm (limit_stat (world_of (shm_open nf ni))) ! 0)\<lparr>file_stat.counter :=
                    file_stat.counter (file_stat_shm (limit_stat (world_of (shm_open nf ni))) ! 0) - 1\<rparr>]\<rparr>\<rparr>)"
    by (rule dec_file_counter_found) simp
  also have "\<dots> = (0, world_of (shm_open (nf - 1) ni))"
    by (simp add: world_of_def) (simp add: shm_open_def shm_init_def MAX_CLIENTS_def)
  finally show "dec_file_counter e request_index (world_of (shm_open nf ni)) =
      (0, world_of (shm_open (nf - 1) ni))" .
  have "dec_ip_counter e request_index (world_of (shm_open nf ni)) =
     (0, (world_of (shm_open nf ni))\<lparr>limit_stat := (limit_stat (world_of (shm_open nf ni)))
            \<lparr>ip_stat_shm := (ip_stat_shm (limit_stat (world_of (shm_open nf ni))))
            [0 := (ip_stat_shm (limit_stat (world_of (shm_open nf ni))) ! 0)\<lparr>ip_stat.counter :=
                    ip_stat.counter (ip_stat_shm (limit_stat (world_of (shm_open nf ni))) ! 0) - 1\<rparr>]\<rparr>\<rparr>)"
    by (rule dec_ip_counter_found) simp
  also have "\<dots> = (0, world_of (shm_open nf (ni - 1)))"
    by (simp add: world_of_def) (simp add: shm_open_def shm_init_def MAX_CLIENTS_def)
  finally show "dec_ip_counter e request_index (world_of (shm_open nf ni)) =
      (0, world_of (shm_open nf (ni - 1)))" .
qed

subsection \<open>The completion call as a whole\<close>






lemma response_end_file_miss_table:
  assumes "get_file_slot_id (limit_stat w) r = - 1"
    and "response_end_file e r cfg cs w = Inr (stat, w')"
  shows "limit_stat w' = limit_stat w"
proof (cases "file_limit cfg > 0")
  case False
  then show ?thesis using assms by (simp add: response_end_file_off)
next
  case True
  then show ?thesis
    using assms by (auto simp: response_end_file_miss split: if_splits)
qed

lemma response_end_ip_miss_table:
  assumes "get_ip_slot_id (limit_stat w) r = - 1"
    and "response_end_ip e r cfg cs w = Inr (stat, w')"
  shows "limit_stat w' = limit_stat w"
proof (cases "ip_limit cfg > 0")
  case False
  then show ?thesis using assms by (simp add: response_end_ip_off)
next
  case True
  then show ?thesis
    using assms by (auto simp: response_end_ip_miss split: if_splits)
qed


lemma vlimit_response_end_result:
  assumes run: "vlimit_response_end e r cfg w = Inr (rc, w')"
  shows "rc = OK"
    and "get_file_slot_id (limit_stat w) r = - 1 \<Longrightarrow>
           file_stat_shm (limit_stat w') = file_stat_shm (limit_stat w)"
    and "get_ip_slot_id (limit_stat w) r = - 1 \<Longrightarrow>
           ip_stat_shm (limit_stat w') = ip_stat_shm (limit_stat w)"
proof -
  have "rc = OK \<and>
        (get_file_slot_id (limit_stat w) r = - 1 \<longrightarrow>
           file_stat_shm (limit_stat w') = file_stat_shm (limit_stat w)) \<and>
        (get_ip_slot_id (limit_stat w) r = - 1 \<longrightarrow>
           ip_stat_shm (limit_stat w') = ip_stat_shm (limit_stat w))"
  proof (cases "fst (check_virtualhost_name e r w) = 0 \<and> lock_status e = APR_SUCCESS")
    case False
    then have "outcome (vlimit_response_end e r cfg w) = Inr (OK, limit_stat w, mutex_held w)"
      by (intro vlimit_response_end_skip) auto
    then show ?thesis using run by simp
  next
    case True
    then have host: "fst (check_virtualhost_name e r w) = 0" and lock: "lock_status e = APR_SUCCESS"
      by simp_all
    show ?thesis
    proof (rule vlimit_response_end_blocks [OF host lock run])
      fix w2 stat1 w3 stat2 w4
      assume w2: "limit_stat w2 = limit_stat w"
        and b1: "response_end_file e r cfg (- 2) w2 = Inr (stat1, w3)"
        and b2: "response_end_ip e r cfg stat1 w3 = Inr (stat2, w4)"
        and rc: "rc = OK" and w': "limit_stat w' = limit_stat w4"
      have ipt: "ip_stat_shm (limit_stat w3) = ip_stat_shm (limit_stat w)"
        using response_end_file_other(1) [OF b1] w2 by simp
      have ft: "file_stat_shm (limit_stat w4) = file_stat_shm (limit_stat w3)"
        using response_end_ip_other(1) [OF b2] .
      have "get_file_slot_id (limit_stat w) r = - 1 \<longrightarrow>
           file_stat_shm (limit_stat w') = file_stat_shm (limit_stat w)"
        using response_end_file_miss_table [OF _ b1] w2 ft w' by simp
      moreover have "get_ip_slot_id (limit_stat w) r = - 1 \<longrightarrow>
           ip_stat_shm (limit_stat w') = ip_stat_shm (limit_stat w)"
        using response_end_ip_miss_table [OF _ b2] ip_lookup_cong(1) [OF ipt] ipt w' by simp
      ultimately show ?thesis using rc by simp
    qed
  qed
  then show "rc = OK"
    and "get_file_slot_id (limit_stat w) r = - 1 \<Longrightarrow>
           file_stat_shm (limit_stat w') = file_stat_shm (limit_stat w)"
    and "get_ip_slot_id (limit_stat w) r = - 1 \<Longrightarrow>
           ip_stat_shm (limit_stat w') = ip_stat_shm (limit_stat w)"
    by simp_all
qed


subsection \<open>What the completion call reads\<close>

text \<open>
  What the completion call reads of the request and of the configuration: the file name, the
  client address, the Host header and the server's names; the two limits.
\<close>

lemma lookups_read:
  assumes "request_rec.filename r1 = request_rec.filename r2" "remote_ip r1 = remote_ip r2"
  shows "get_file_slot_id ls r1 = get_file_slot_id ls r2"
    and "get_file_empty_slot_id ls r1 = get_file_empty_slot_id ls r2"
    and "get_ip_slot_id ls r1 = get_ip_slot_id ls r2"
    and "get_ip_empty_slot_id ls r1 = get_ip_empty_slot_id ls r2"
  using assms
  by (simp_all add: get_file_slot_id_def get_file_empty_slot_id_def get_ip_slot_id_def
      get_ip_empty_slot_id_def)


lemma host_read:
  assumes "host_header r1 = host_header r2" "server_hostname r1 = server_hostname r2"
    "server_names r1 = server_names r2"
  shows "access_host r1 = access_host r2"
    and "check_virtualhost_name e r1 w = check_virtualhost_name e r2 w"
proof -
  show a: "access_host r1 = access_host r2"
    using assms by (simp add: access_host_def)
  show "check_virtualhost_name e r1 w = check_virtualhost_name e r2 w"
    unfolding check_virtualhost_name_def by (simp only: a assms)
qed


lemma request_sub_fields [simp]:
  "request_rec.filename request_sub = ''/var/www/html/index.html''"
  "remote_ip request_sub = ''192.0.2.7''"
  "host_header request_sub = Some ''www.example.com:8080''"
  "server_hostname request_sub = ''www.example.com''"
  "server_names request_sub = Some [''example.com'']"
  "has_main request_sub = True"
  by (simp_all add: request_sub_def)

lemma config_scope_fields [simp]:
  "ip_limit (config_scope s) = 2" "file_limit (config_scope s) = 2"
  "full_path (config_scope s) = Some s"
  by (simp_all add: config_scope_def)

lemma lookup_open_sub [simp]:
  "get_file_slot_id (shm_open nf ni) request_sub = 0"
  "get_ip_slot_id (shm_open nf ni) request_sub = 0"
  using lookups_read(1,3) [of request_sub request_index "shm_open nf ni"] by simp_all

lemma vhost_sub [simp]: "fst (check_virtualhost_name e request_sub w) = 0"
  using host_read(2) [of request_sub request_index e w]
  by (simp add: check_virtualhost_name_fst)

subsection \<open>The port suffix\<close>





lemma strip_port_samples:
  "strip_port ''www.example.com:8080'' = ''www.example.com''"
  "strip_port '':www.example.com'' = '':www.example.com''"
  "strip_port ''[2001:db8::1]:8080'' = ''[2001:db8::1]''"
  "strip_port ''host:80:90'' = ''host:80''"
  by (simp_all add: strip_port_def is_digit_def Let_def)

subsection \<open>Completion for a key without a slot\<close>

lemma vlimit_response_end_file_miss:
  assumes host: "fst (check_virtualhost_name e r w) = 0" and lock: "lock_status e = APR_SUCCESS"
    and miss: "file_limit cfg > 0" "get_file_slot_id (limit_stat w) r = - 1"
      "get_file_counter (limit_stat w) r = 0"
  shows "vlimit_response_end e r cfg w = Inl OutOfBounds"
proof -
  obtain w2 where w2: "limit_stat w2 = limit_stat w"
    and eq: "vlimit_response_end e r cfg w =
             (case response_end_file e r cfg (- 2) w2 of
                Inl err \<Rightarrow> Inl err
              | Inr (stat1, w3) \<Rightarrow>
                  (case response_end_ip e r cfg stat1 w3 of
                     Inl err \<Rightarrow> Inl err
                   | Inr (stat2, w4) \<Rightarrow> Inr (response_end_unlock e r cfg stat2 w4)))"
    using vlimit_response_end_run [OF host lock, of cfg] by blast
  have "response_end_file e r cfg (- 2) w2 = Inl OutOfBounds"
    using response_end_file_miss [of cfg w2 r e "- 2"] miss w2 by simp
  then show ?thesis using eq by simp
qed

lemma vlimit_response_end_ip_miss:
  assumes host: "fst (check_virtualhost_name e r w) = 0" and lock: "lock_status e = APR_SUCCESS"
    and off: "\<not> file_limit cfg > 0"
    and miss: "ip_limit cfg > 0" "get_ip_slot_id (limit_stat w) r = - 1"
      "get_ip_counter (limit_stat w) r = 0"
  shows "vlimit_response_end e r cfg w = Inl OutOfBounds"
proof -
  obtain w2 where w2: "limit_stat w2 = limit_stat w"
    and eq: "vlimit_response_end e r cfg w =
             (case response_end_file e r cfg (- 2) w2 of
                Inl err \<Rightarrow> Inl err
              | Inr (stat1, w3) \<Rightarrow>
                  (case response_end_ip e r cfg stat1 w3 of
                     Inl err \<Rightarrow> Inl err
                   | Inr (stat2, w4) \<Rightarrow> Inr (response_end_unlock e r cfg stat2 w4)))"
    using vlimit_response_end_run [OF host lock, of cfg] by blast
  have b1: "response_end_file e r cfg (- 2) w2 = Inr (- 2, w2)"
    using off by (rule response_end_file_off)
  have "response_end_ip e r cfg (- 2) w2 = Inl OutOfBounds"
    using response_end_ip_miss [of cfg w2 r e "- 2"] miss w2 by simp
  then show ?thesis using eq b1 by simp
qed

subsection \<open>More concrete inputs, evaluated\<close>

lemma request_other_fields [simp]:
  "request_rec.filename request_other = ''/var/www/html/about.html''"
  "remote_ip request_other = ''198.51.100.9''"
  "host_header request_other = Some ''www.example.com:8080''"
  "server_hostname request_other = ''www.example.com''"
  "server_names request_other = Some [''example.com'']"
  "has_main request_other = False"
  "has_prev request_other = False"
  by (simp_all add: request_other_def)

lemma request_sub_other_fields [simp]:
  "request_rec.filename request_sub_other = ''/var/www/html/index.html''"
  "remote_ip request_sub_other = ''198.51.100.9''"
  "host_header request_sub_other = Some ''www.example.com:8080''"
  "server_hostname request_sub_other = ''www.example.com''"
  "server_names request_sub_other = Some [''example.com'']"
  "has_main request_sub_other = True"
  by (simp_all add: request_sub_other_def)

lemma config_file_scope_fields [simp]:
  "ip_limit (config_file_scope s) = 0" "file_limit (config_file_scope s) = 2"
  "full_path (config_file_scope s) = Some s"
  by (simp_all add: config_file_scope_def)

lemma env_debug_fields [simp]:
  "debug_flag env_debug = True" "lock_status env_debug = 0" "unlock_status env_debug = 0"
  "file_exists env_debug = (\<lambda>p. False)"
  by (simp_all add: env_debug_def env_quiet_def)

lemma basename_about [simp]: "basename ''/var/www/html/about.html'' = ''about.html''"
  by (simp add: basename_def)

lemma vhost_other [simp]:
  "fst (check_virtualhost_name e request_other w) = 0"
  "fst (check_virtualhost_name e request_sub_other w) = 0"
  using host_read(2) [of request_other request_index e w]
    host_read(2) [of request_sub_other request_index e w]
  by (simp_all add: check_virtualhost_name_fst)

lemma lookup_open_other [simp]:
  "get_file_slot_id (shm_open nf ni) request_other = - 1"
  "get_ip_slot_id (shm_open nf ni) request_other = - 1"
  unfolding get_file_slot_id_def get_ip_slot_id_def
  by (rule slot_scan_missI,
      simp add: shm_open_def shm_init_def MAX_CLIENTS_def nth_list_update)+

lemma empty_open_other [simp]:
  "get_file_empty_slot_id (shm_open nf ni) request_other = 1"
  "get_ip_empty_slot_id (shm_open nf ni) request_other = 1"
proof -
  show "get_file_empty_slot_id (shm_open nf ni) request_other = 1"
    unfolding get_file_empty_slot_id_def
    using slot_scan_foundI [of 1 "\<lambda>s. file_stat.filename s = []" "file_stat_shm (shm_open nf ni)"]
    by (simp add: shm_open_def shm_init_def MAX_CLIENTS_def)
  show "get_ip_empty_slot_id (shm_open nf ni) request_other = 1"
    unfolding get_ip_empty_slot_id_def
    using slot_scan_foundI [of 1 "\<lambda>s. ip_stat.address s = []" "ip_stat_shm (shm_open nf ni)"]
    by (simp add: shm_open_def shm_init_def MAX_CLIENTS_def)
qed

lemma counters_open_other [simp]:
  "get_file_counter (shm_open nf ni) request_other = 0"
  "get_ip_counter (shm_open nf ni) request_other = 0"
proof -
  have "get_file_counter (shm_open nf ni) request_other =
        file_stat.counter (file_stat_shm (shm_open nf ni) ! 1)"
    by (rule get_file_counter_new) simp_all
  also have "\<dots> = 0" by (simp add: shm_open_def shm_init_def MAX_CLIENTS_def)
  finally show "get_file_counter (shm_open nf ni) request_other = 0" .
  have "get_ip_counter (shm_open nf ni) request_other =
        ip_stat.counter (ip_stat_shm (shm_open nf ni) ! 1)"
    by (rule get_ip_counter_new) simp_all
  also have "\<dots> = 0" by (simp add: shm_open_def shm_init_def MAX_CLIENTS_def)
  finally show "get_ip_counter (shm_open nf ni) request_other = 0" .
qed

lemma lookup_open_sub_other [simp]:
  "get_file_slot_id (shm_open nf ni) request_sub_other = 0"
proof -
  have "get_file_slot_id (shm_open nf ni) request_sub_other =
        get_file_slot_id (shm_open nf ni) request_index"
    by (simp add: get_file_slot_id_def)
  then show ?thesis by simp
qed

lemma lookup_init [simp]:
  "get_file_slot_id shm_init request_index = - 1"
  "get_ip_slot_id shm_init request_index = - 1"
  unfolding get_file_slot_id_def get_ip_slot_id_def
  by (rule slot_scan_missI, simp add: shm_init_def MAX_CLIENTS_def)+

lemma empty_init [simp]:
  "get_file_empty_slot_id shm_init request_index = 0"
  "get_ip_empty_slot_id shm_init request_index = 0"
proof -
  show "get_file_empty_slot_id shm_init request_index = 0"
    unfolding get_file_empty_slot_id_def
    using slot_scan_foundI [of 0 "\<lambda>s. file_stat.filename s = []" "file_stat_shm shm_init"]
    by (simp add: shm_init_def MAX_CLIENTS_def)
  show "get_ip_empty_slot_id shm_init request_index = 0"
    unfolding get_ip_empty_slot_id_def
    using slot_scan_foundI [of 0 "\<lambda>s. ip_stat.address s = []" "ip_stat_shm shm_init"]
    by (simp add: shm_init_def MAX_CLIENTS_def)
qed

lemma counters_init [simp]:
  "get_file_counter shm_init request_index = 0"
  "get_ip_counter shm_init request_index = 0"
proof -
  have "get_file_counter shm_init request_index = file_stat.counter (file_stat_shm shm_init ! 0)"
    by (rule get_file_counter_new) simp_all
  also have "\<dots> = 0" by (simp add: shm_init_def MAX_CLIENTS_def)
  finally show "get_file_counter shm_init request_index = 0" .
  have "get_ip_counter shm_init request_index = ip_stat.counter (ip_stat_shm shm_init ! 0)"
    by (rule get_ip_counter_new) simp_all
  also have "\<dots> = 0" by (simp add: shm_init_def MAX_CLIENTS_def)
  finally show "get_ip_counter shm_init request_index = 0" .
qed

lemma unset_open [simp]:
  "unset_file_counter (shm_open 1 0) request_index = Inr (shm_open 1 0)"
  "unset_ip_counter (shm_open 1 0) request_index =
     Inr ((shm_open 1 0)\<lparr>ip_stat_shm := (ip_stat_shm (shm_open 1 0))
            [0 := \<lparr>ip_stat.address = [], ip_stat.counter = 0\<rparr>]\<rparr>)"
  using unset_file_counter_found [of "shm_open 1 0" request_index 0]
    unset_ip_counter_found [of "shm_open 1 0" request_index 0]
  by simp_all

section \<open>The claims\<close>

text \<open>
  C4. A request that is not an initial request, and any request under a configuration
  whose two limits are both 0, gets \<^verbatim>\<open>DECLINED\<close> from the admission call, whatever the
  counters hold; the tables and the mutex are as before the call.
\<close>

theorem skip_conditions_declined:
  assumes "\<not> ap_is_initial_req r \<or> (ip_limit cfg = 0 \<and> file_limit cfg = 0)"
  shows "outcome (vlimit_check_limit e r cfg w) = Inr (DECLINED, limit_stat w, mutex_held w)"
  using assms by (auto simp: outcome_vlimit_check_limit)

theorem skip_conditions_declined_witness:
  "\<not> ap_is_initial_req (request_index\<lparr>has_main := True\<rparr>) \<and>
   outcome (vlimit_check_limit env_quiet (request_index\<lparr>has_main := True\<rparr>) (config_limits 2 2)
              (world_of (shm_open 5 5))) = Inr (DECLINED, (shm_open 5 5), False) \<and>
   ip_limit (config_limits 0 0) = 0 \<and> file_limit (config_limits 0 0) = 0 \<and>
   outcome (vlimit_check_limit env_quiet request_index (config_limits 0 0) (world_of (shm_open 5 5))) =
     Inr (DECLINED, (shm_open 5 5), False)"
  using skip_conditions_declined [of "request_index\<lparr>has_main := True\<rparr>" "config_limits 2 2"
          env_quiet "world_of (shm_open 5 5)"]
        skip_conditions_declined [of request_index "config_limits 0 0" env_quiet "world_of (shm_open 5 5)"]
  by (simp add: ap_is_initial_req_def request_index_def config_limits_def world_of_def)

text \<open>
  C1. When incrementing the file counter or the IP counter finds no free slot, the admission
  call is said to release the mutex before it returns the rejection. The code returns
  \<^verbatim>\<open>HTTP_SERVICE_UNAVAILABLE\<close> from inside the locked section: with both tables full, a
  request for a page that has no slot (file limit 10), and likewise a request from an address
  that has no slot (IP limit 10), comes back rejected with the mutex, which was free before
  the call, still held.
\<close>

theorem full_table_returns_with_mutex_held:
  "outcome (vlimit_check_limit env_quiet request_index (config_limits 0 10) (world_of shm_full)) =
     Inr (HTTP_SERVICE_UNAVAILABLE, shm_full, True) \<and>
   outcome (vlimit_check_limit env_quiet request_index (config_limits 10 0) (world_of shm_full)) =
     Inr (HTTP_SERVICE_UNAVAILABLE, shm_full, True)"
  using check_limit_file_full [of request_index env_quiet "world_of shm_full" "config_limits 0 10"]
    check_limit_ip_full [of request_index env_quiet "world_of shm_full" "config_limits 10 0"]
  by (simp add: ap_is_initial_req_def check_virtualhost_name_fst APR_SUCCESS_def)








text \<open>
  C6. A resource name longer than the key field is said to be stored truncated, without a
  write past the field. \<^verbatim>\<open>inc_file_counter\<close> copies the name with \<^verbatim>\<open>strcpy\<close>, which has no
  bound: for a request whose base name has 300 characters and has no slot yet, the copy into
  the 256-byte field of the first empty slot runs past the field.
\<close>

theorem long_name_written_past_key_field:
  "length (basename (request_rec.filename request_long)) = 300 \<and> MAX_FILENAME = 256 \<and>
   inc_file_counter shm_init request_long = Inl BufferOverrun"
proof -
  have "inc_file_counter shm_init request_long = Inl BufferOverrun"
    using inc_file_counter_new [of shm_init request_long 0] lookup_init_long
    by (simp add: basename_long MAX_FILENAME_def) (simp add: shm_init_def MAX_CLIENTS_def)
  then show ?thesis by (simp add: basename_long MAX_FILENAME_def)
qed







text \<open>
  C5. Reclaim is said to clear a slot's key exactly when the slot's counter is 0, and no
  operation is said to vacate an occupied slot whose counter is positive. For a key that has
  a slot, \<^verbatim>\<open>unset_file_counter\<close> and \<^verbatim>\<open>unset_ip_counter\<close> do the first (the first two lines
  below: a count of 1 keeps the key, a count of 0 clears it). But both index the table with
  the result of the lookup without the test \<^verbatim>\<open>id >= 0\<close> that \<^verbatim>\<open>dec_file_counter\<close>,
  \<^verbatim>\<open>dec_ip_counter\<close>, \<^verbatim>\<open>get_file_counter\<close> and \<^verbatim>\<open>get_ip_counter\<close> make. For a key without a
  slot the index is -1: the routine reads a counter and may clear a key byte in front of the
  table, whatever the slots of the table hold. The completion call gets there for every
  request that was not counted while its table has an empty slot. Below, slot 0 of each table
  is occupied with a count of 1; a request for another page from another address is outside
  the scope path, so \<^verbatim>\<open>vlimit_handler\<close> declines it without counting; its completion finds no
  slot, reads the count 0 of the first empty slot, and calls the reclaim. The decrement on
  the same input takes its guarded branch and changes nothing.
\<close>

theorem reclaim_without_slot_indexes_before_table:
  "unset_file_counter (shm_open 1 0) request_index = Inr (shm_open 1 0) \<and>
   unset_ip_counter (shm_open 1 0) request_index =
     Inr ((shm_open 1 0)\<lparr>ip_stat_shm := (ip_stat_shm (shm_open 1 0))
            [0 := \<lparr>ip_stat.address = [], ip_stat.counter = 0\<rparr>]\<rparr>) \<and>
   file_stat_shm (shm_open 1 1) ! 0 =
     \<lparr>file_stat.filename = ''index.html'', file_stat.counter = 1\<rparr> \<and>
   ip_stat_shm (shm_open 1 1) ! 0 = \<lparr>ip_stat.address = ''192.0.2.7'', ip_stat.counter = 1\<rparr> \<and>
   get_file_slot_id (shm_open 1 1) request_other = - 1 \<and>
   get_ip_slot_id (shm_open 1 1) request_other = - 1 \<and>
   apply_op env_quiet Dec_File request_other (world_of (shm_open 1 1)) =
     Inr (world_of (shm_open 1 1)) \<and>
   apply_op env_quiet Dec_Ip request_other (world_of (shm_open 1 1)) =
     Inr (world_of (shm_open 1 1)) \<and>
   apply_op env_quiet Unset_File request_other (world_of (shm_open 1 1)) = Inl OutOfBounds \<and>
   apply_op env_quiet Unset_Ip request_other (world_of (shm_open 1 1)) = Inl OutOfBounds \<and>
   outcome (vlimit_handler env_quiet request_other (config_file_scope ''/var/www/other'')
              (world_of (shm_open 1 1))) = Inr (DECLINED, shm_open 1 1, False) \<and>
   vlimit_response_end env_quiet request_other (config_file_scope ''/var/www/other'')
     (world_of (shm_open 1 1)) = Inl OutOfBounds \<and>
   vlimit_response_end env_quiet request_other (config_limits 2 0)
     (world_of (shm_open 1 1)) = Inl OutOfBounds"
proof -
  have dec: "apply_op env_quiet Dec_File request_other (world_of (shm_open 1 1)) =
     Inr (world_of (shm_open 1 1))"
    "apply_op env_quiet Dec_Ip request_other (world_of (shm_open 1 1)) =
     Inr (world_of (shm_open 1 1))"
    by (simp_all add: dec_file_counter_miss dec_ip_counter_miss dbg_def VLIMIT_DEBUG_SYSLOG_def)
  have unset: "apply_op env_quiet Unset_File request_other (world_of (shm_open 1 1)) = Inl OutOfBounds"
    "apply_op env_quiet Unset_Ip request_other (world_of (shm_open 1 1)) = Inl OutOfBounds"
    by (simp_all add: unset_file_counter_miss unset_ip_counter_miss)
  have skipped: "outcome (vlimit_handler env_quiet request_other (config_file_scope ''/var/www/other'')
              (world_of (shm_open 1 1))) = Inr (DECLINED, shm_open 1 1, False)"
    by (simp add: outcome_vlimit_handler)
  have f: "vlimit_response_end env_quiet request_other (config_file_scope ''/var/www/other'')
     (world_of (shm_open 1 1)) = Inl OutOfBounds"
    by (rule vlimit_response_end_file_miss) (simp_all add: APR_SUCCESS_def)
  have i: "vlimit_response_end env_quiet request_other (config_limits 2 0)
     (world_of (shm_open 1 1)) = Inl OutOfBounds"
    by (rule vlimit_response_end_ip_miss) (simp_all add: APR_SUCCESS_def)
  show ?thesis
    using dec unset skipped f i by simp
qed

text \<open>
  C8. A decrement asked for a key that has no slot is said to be a logged no-op that the
  completion call absorbs. \<^verbatim>\<open>dec_file_counter\<close> and \<^verbatim>\<open>dec_ip_counter\<close>, called on their own,
  behave so: they write the \<^verbatim>\<open>unexpected error\<close> line, change nothing and return -1. The
  completion call does not get that far. For a key without a slot it reads the count of the
  first empty slot, which is 0, so it does not call the decrement and nothing is logged; and
  the count being 0, it calls the reclaim, which indexes the table at -1 without a test.
  Below, on the tables as \<^verbatim>\<open>vlimit_init\<close> leaves them: a request outside the scope path is
  declined by \<^verbatim>\<open>vlimit_handler\<close> without being counted, and its completion call ends in the
  access in front of the table, with both limits set, with the file limit alone and with the
  IP limit alone.
\<close>

theorem completion_for_key_without_slot_not_absorbed:
  "outcome (vlimit_handler env_debug request_index (config_scope ''/var/www/other'')
              (world_of shm_init)) = Inr (DECLINED, shm_init, False) \<and>
   get_file_slot_id shm_init request_index = - 1 \<and>
   get_file_counter shm_init request_index = 0 \<and>
   get_ip_slot_id shm_init request_index = - 1 \<and>
   get_ip_counter shm_init request_index = 0 \<and>
   dec_file_counter env_debug request_index (world_of shm_init) =
     (- 1, (world_of shm_init)
             \<lparr>syslog := [''mod_vlimit: dec_file_counter: unexpected error. file slot not found.'']\<rparr>) \<and>
   dec_ip_counter env_debug request_index (world_of shm_init) =
     (- 1, (world_of shm_init)
             \<lparr>syslog := [''mod_vlimit: dec_ip_counter: unexpected error. ip slot not found.'']\<rparr>) \<and>
   vlimit_response_end env_debug request_index (config_scope ''/var/www/other'')
     (world_of shm_init) = Inl OutOfBounds \<and>
   vlimit_response_end env_debug request_index (config_limits 0 2) (world_of shm_init) =
     Inl OutOfBounds \<and>
   vlimit_response_end env_debug request_index (config_limits 2 0) (world_of shm_init) =
     Inl OutOfBounds"
proof -
  have skipped: "outcome (vlimit_handler env_debug request_index (config_scope ''/var/www/other'')
              (world_of shm_init)) = Inr (DECLINED, shm_init, False)"
    by (simp add: outcome_vlimit_handler)
  have dec: "dec_file_counter env_debug request_index (world_of shm_init) =
     (- 1, (world_of shm_init)
             \<lparr>syslog := [''mod_vlimit: dec_file_counter: unexpected error. file slot not found.'']\<rparr>)"
    "dec_ip_counter env_debug request_index (world_of shm_init) =
     (- 1, (world_of shm_init)
             \<lparr>syslog := [''mod_vlimit: dec_ip_counter: unexpected error. ip slot not found.'']\<rparr>)"
    by (simp_all add: dec_file_counter_miss dec_ip_counter_miss dbg_def VLIMIT_DEBUG_SYSLOG_def)
       (simp_all add: world_of_def)
  have both: "vlimit_response_end env_debug request_index (config_scope ''/var/www/other'')
     (world_of shm_init) = Inl OutOfBounds"
    by (rule vlimit_response_end_file_miss)
       (simp_all add: APR_SUCCESS_def check_virtualhost_name_fst)
  have f: "vlimit_response_end env_debug request_index (config_limits 0 2) (world_of shm_init) =
     Inl OutOfBounds"
    by (rule vlimit_response_end_file_miss)
       (simp_all add: APR_SUCCESS_def check_virtualhost_name_fst)
  have i: "vlimit_response_end env_debug request_index (config_limits 2 0) (world_of shm_init) =
     Inl OutOfBounds"
    by (rule vlimit_response_end_ip_miss)
       (simp_all add: APR_SUCCESS_def check_virtualhost_name_fst)
  show ?thesis
    using skipped dec both f i by simp
qed




end
